theory Spec2Isabelle
  imports Complex_Main "HOL-Library.Word"
begin

section \<open>Data model\<close>

text \<open>
  The viewer stores mesh data in \<^verbatim>\<open>glm::vec3\<close> and \<^verbatim>\<open>glm::vec2\<close> values, whose
  components are C++ \<^verbatim>\<open>float\<close>s. The mesh pipeline below is polymorphic in the component
  type \<open>'f\<close>: nothing is assumed about float arithmetic, and every theorem about the
  pipeline holds for whatever the GLM operations and the stream extraction compute.
\<close>

datatype 'f vec3 = Vec3 (vx: 'f) (vy: 'f) (vz: 'f)

datatype 'f vec2 = Vec2 (ux: 'f) (uy: 'f)

text \<open>
  The operations of GLM and of \<^verbatim>\<open><sstream>\<close> that the viewer calls are libraries outside
  the repository; they are parameters of the model.
  \<^item> \<open>fzero\<close> is \<^verbatim>\<open>0.0f\<close>; \<open>flt\<close> and \<open>fne\<close> are \<^verbatim>\<open><\<close> and \<^verbatim>\<open>!=\<close> on floats;
  \<^item> \<open>vplus\<close>, \<open>vminus\<close>, \<open>cross\<close>, \<open>normalize\<close> are \<^verbatim>\<open>+\<close>, \<^verbatim>\<open>-\<close>, \<^verbatim>\<open>glm::cross\<close>
    and \<^verbatim>\<open>glm::normalize\<close> on \<^verbatim>\<open>glm::vec3\<close>;
  \<^item> \<open>vdiv_size\<close> is \<^verbatim>\<open>operator/=\<close> of a \<^verbatim>\<open>glm::vec3\<close> by a \<^verbatim>\<open>size_t\<close>;
  \<^item> \<open>read_vec3 r\<close> is the value that \<^verbatim>\<open>iss >> v.x >> v.y >> v.z\<close> leaves in a freshly
    declared \<^verbatim>\<open>glm::vec3 v\<close> when \<open>r\<close> is what remains of the line, and \<open>read_vec2\<close>
    likewise for \<^verbatim>\<open>iss >> uv.x >> uv.y\<close>. A failed extraction sets the stream's failbit
    and raises nothing (the exception mask of a fresh \<^verbatim>\<open>istringstream\<close> is empty), and
    \<^verbatim>\<open>loadOBJ\<close> never tests the stream, so both are total functions.
\<close>

record 'f glm =
  fzero :: "'f"
  flt :: "'f \<Rightarrow> 'f \<Rightarrow> bool"
  fne :: "'f \<Rightarrow> 'f \<Rightarrow> bool"
  vplus :: "'f vec3 \<Rightarrow> 'f vec3 \<Rightarrow> 'f vec3"
  vminus :: "'f vec3 \<Rightarrow> 'f vec3 \<Rightarrow> 'f vec3"
  cross :: "'f vec3 \<Rightarrow> 'f vec3 \<Rightarrow> 'f vec3"
  normalize :: "'f vec3 \<Rightarrow> 'f vec3"
  vdiv_size :: "'f vec3 \<Rightarrow> nat \<Rightarrow> 'f vec3"
  read_vec3 :: "string \<Rightarrow> 'f vec3"
  read_vec2 :: "string \<Rightarrow> 'f vec2"

text \<open>\<^verbatim>\<open>glm::vec3(0.0f)\<close> and \<^verbatim>\<open>glm::vec2(0.0f, 0.0f)\<close>.\<close>

definition vec3_zero :: "'f glm \<Rightarrow> 'f vec3" where
  "vec3_zero ops = Vec3 (fzero ops) (fzero ops) (fzero ops)"

definition vec2_zero :: "'f glm \<Rightarrow> 'f vec2" where
  "vec2_zero ops = Vec2 (fzero ops) (fzero ops)"

text \<open>
  The local variables of \<^verbatim>\<open>loadOBJ\<close> that the line loop fills. The three index vectors are
  \<^verbatim>\<open>std::vector<unsigned int>\<close>: 32-bit words.
\<close>

record 'f parse_state =
  temp_vertices :: "'f vec3 list"
  temp_uvs :: "'f vec2 list"
  temp_normals :: "'f vec3 list"
  vertexIndices :: "32 word list"
  uvIndices :: "32 word list"
  normalIndices :: "32 word list"

definition init_state :: "'f parse_state" where
  "init_state = \<lparr>temp_vertices = [], temp_uvs = [], temp_normals = [],
                 vertexIndices = [], uvIndices = [], normalIndices = []\<rparr>"

text \<open>The three output vectors that \<^verbatim>\<open>loadOBJ\<close> appends to.\<close>

record 'f buffers =
  out_vertices :: "'f vec3 list"
  out_normals :: "'f vec3 list"
  out_uvs :: "'f vec2 list"

definition empty_buffers :: "'f buffers" where
  "empty_buffers = \<lparr>out_vertices = [], out_normals = [], out_uvs = []\<rparr>"

text \<open>The exceptions of \<^verbatim>\<open>std::stoi\<close>; nothing in the program catches them.\<close>

datatype exn = Invalid_argument | Out_of_range

section \<open>Reading a line\<close>

text \<open>\<^verbatim>\<open>isspace\<close> in the C locale: space, tab, line feed, vertical tab, form feed, carriage return.\<close>

definition isspace :: "char \<Rightarrow> bool" where
  "isspace c = (c = CHR '' '' \<or> c = CHR 0x09 \<or> c = CHR 0x0A \<or> c = CHR 0x0B
                \<or> c = CHR 0x0C \<or> c = CHR 0x0D)"

definition isdigit :: "char \<Rightarrow> bool" where
  "isdigit c = (48 \<le> (of_char c :: nat) \<and> (of_char c :: nat) \<le> 57)"

text \<open>
  \<^verbatim>\<open>iss >> word\<close> for a \<^verbatim>\<open>std::string\<close> that is empty before the call: leading white
  space is skipped and the characters up to the next white space are taken. At the end of
  the stream the extraction fails and the word stays empty. The result is the word and
  the rest of the stream.
\<close>

definition extract_word :: "string \<Rightarrow> string \<times> string" where
  "extract_word s =
     (let s1 = dropWhile isspace s
      in (takeWhile (\<lambda>c. \<not> isspace c) s1, dropWhile (\<lambda>c. \<not> isspace c) s1))"

text \<open>
  \<^verbatim>\<open>std::getline(viss, token, '/')\<close>: \<open>None\<close> when the stream has nothing left (the call
  then fails and every later call fails too), otherwise the characters before the next
  slash and the stream after that slash.
\<close>

definition getline_slash :: "string \<Rightarrow> (string \<times> string) option" where
  "getline_slash s =
     (if s = [] then None
      else Some (takeWhile (\<lambda>c. c \<noteq> CHR ''/'') s, drop 1 (dropWhile (\<lambda>c. c \<noteq> CHR ''/'') s)))"

text \<open>
  \<^verbatim>\<open>std::stoi\<close> in base 10: white space is skipped, then an optional sign and the longest
  run of digits are read; what follows the digits is ignored. No digit raises
  \<^verbatim>\<open>std::invalid_argument\<close>, a value outside \<^verbatim>\<open>int\<close> raises \<^verbatim>\<open>std::out_of_range\<close>.
\<close>

definition digits_value :: "string \<Rightarrow> nat" where
  "digits_value ds = foldl (\<lambda>a c. 10 * a + (of_char c - 48)) 0 ds"

definition stoi :: "string \<Rightarrow> exn + int" where
  "stoi s =
     (let s1 = dropWhile isspace s;
          neg = (s1 \<noteq> [] \<and> hd s1 = CHR ''-'');
          s2 = (if s1 \<noteq> [] \<and> (hd s1 = CHR ''-'' \<or> hd s1 = CHR ''+'') then tl s1 else s1);
          ds = takeWhile isdigit s2
      in if ds = [] then Inl Invalid_argument
         else let n = (if neg then - int (digits_value ds) else int (digits_value ds))
              in if n < - 2147483648 \<or> 2147483647 < n then Inl Out_of_range else Inr n)"

section \<open>The parser: the line loop of loadOBJ\<close>

text \<open>
  A texture or normal field of a corner:
  \<^verbatim>\<open>if (std::getline(viss, token, '/')) { if (!token.empty()) { ... std::stoi(token) ... } }\<close>.
  The result is the index to store, if there is one, and the stream after the call.
\<close>

definition optional_index :: "string \<Rightarrow> exn + (int option \<times> string)" where
  "optional_index viss =
     (case getline_slash viss of
        None \<Rightarrow> Inr (None, [])
      | Some (token, viss') \<Rightarrow>
          if token \<noteq> [] then
            (case stoi token of Inl e \<Rightarrow> Inl e | Inr n \<Rightarrow> Inr (Some n, viss'))
          else Inr (None, viss'))"

text \<open>
  One face corner (the body of the inner loop). The first \<^verbatim>\<open>getline\<close> is not tested and
  its token, empty when the call fails, is always converted. The \<^verbatim>\<open>int\<close> that
  \<^verbatim>\<open>stoi\<close> returns is stored in a vector of \<^verbatim>\<open>unsigned int\<close>, which is \<open>word_of_int\<close>.
  An exception leaves the function.
\<close>

definition process_corner :: "'f parse_state \<Rightarrow> string \<Rightarrow> exn + 'f parse_state" where
  "process_corner st vertex =
     (let (token, viss1) = (case getline_slash vertex of None \<Rightarrow> ([], []) | Some p \<Rightarrow> p)
      in case stoi token of
           Inl e \<Rightarrow> Inl e
         | Inr vertexIndex \<Rightarrow>
             (let st1 = st\<lparr>vertexIndices := vertexIndices st @ [word_of_int vertexIndex]\<rparr>
              in case optional_index viss1 of
                   Inl e \<Rightarrow> Inl e
                 | Inr (t, viss2) \<Rightarrow>
                     (let st2 = (case t of
                                   None \<Rightarrow> st1
                                 | Some uvIndex \<Rightarrow>
                                     st1\<lparr>uvIndices := uvIndices st1 @ [word_of_int uvIndex]\<rparr>)
                      in case optional_index viss2 of
                           Inl e \<Rightarrow> Inl e
                         | Inr (n, viss3) \<Rightarrow>
                             Inr (case n of
                                    None \<Rightarrow> st2
                                  | Some normalIndex \<Rightarrow>
                                      st2\<lparr>normalIndices :=
                                            normalIndices st2 @ [word_of_int normalIndex]\<rparr>))))"

text \<open>
  The two nested loops over \<^verbatim>\<open>face_vertices\<close> visit its 3 or 6 entries in order.
\<close>

fun process_corners :: "'f parse_state \<Rightarrow> string list \<Rightarrow> exn + 'f parse_state" where
  "process_corners st [] = Inr st"
| "process_corners st (vertex # rest) =
     (case process_corner st vertex of
        Inl e \<Rightarrow> Inl e
      | Inr st' \<Rightarrow> process_corners st' rest)"

text \<open>
  The corner strings of a face record: three words, and, when a fourth word is there,
  the first, the third and the fourth again.
\<close>

definition face_vertices :: "string \<Rightarrow> string list" where
  "face_vertices r =
     (let (vertex1, r1) = extract_word r;
          (vertex2, r2) = extract_word r1;
          (vertex3, r3) = extract_word r2;
          (vertex4, r4) = extract_word r3;
          isQuad = (vertex4 \<noteq> [])
      in [vertex1, vertex2, vertex3] @ (if isQuad then [vertex1, vertex3, vertex4] else []))"

definition process_line :: "'f glm \<Rightarrow> 'f parse_state \<Rightarrow> string \<Rightarrow> exn + 'f parse_state" where
  "process_line ops st line =
     (let (prefix, iss) = extract_word line
      in if prefix = ''v'' then
           Inr (st\<lparr>temp_vertices := temp_vertices st @ [read_vec3 ops iss]\<rparr>)
         else if prefix = ''vt'' then
           Inr (st\<lparr>temp_uvs := temp_uvs st @ [read_vec2 ops iss]\<rparr>)
         else if prefix = ''vn'' then
           Inr (st\<lparr>temp_normals := temp_normals st @ [read_vec3 ops iss]\<rparr>)
         else if prefix = ''f'' then process_corners st (face_vertices iss)
         else Inr st)"

fun parse_lines :: "'f glm \<Rightarrow> 'f parse_state \<Rightarrow> string list \<Rightarrow> exn + 'f parse_state" where
  "parse_lines ops st [] = Inr st"
| "parse_lines ops st (line # rest) =
     (case process_line ops st line of
        Inl e \<Rightarrow> Inl e
      | Inr st' \<Rightarrow> parse_lines ops st' rest)"

section \<open>The flattener: the index loop of loadOBJ\<close>

text \<open>
  \<^verbatim>\<open>idx > 0 && idx <= pool.size()\<close> on an \<^verbatim>\<open>unsigned int\<close> and a \<^verbatim>\<open>size_t\<close>.
\<close>

definition in_range :: "32 word \<Rightarrow> 'a list \<Rightarrow> bool" where
  "in_range idx pool = (0 < idx \<and> unat idx \<le> length pool)"

text \<open>\<^verbatim>\<open>pool[idx - 1]\<close>, the subtraction being the one of \<^verbatim>\<open>unsigned int\<close>.\<close>

definition resolve :: "'a list \<Rightarrow> 32 word \<Rightarrow> 'a" where
  "resolve pool idx = pool ! unat (idx - 1)"

definition flatten_step :: "'f glm \<Rightarrow> 'f parse_state \<Rightarrow> 'f buffers \<Rightarrow> nat \<Rightarrow> 'f buffers" where
  "flatten_step ops st out i =
     (if in_range (vertexIndices st ! i) (temp_vertices st) then
        (let out1 = out\<lparr>out_vertices :=
                          out_vertices out @ [resolve (temp_vertices st) (vertexIndices st ! i)]\<rparr>;
             out2 = (if uvIndices st \<noteq> [] \<and> i < length (uvIndices st)
                        \<and> in_range (uvIndices st ! i) (temp_uvs st)
                     then out1\<lparr>out_uvs := out_uvs out1 @ [resolve (temp_uvs st) (uvIndices st ! i)]\<rparr>
                     else if temp_uvs st \<noteq> []
                     then out1\<lparr>out_uvs := out_uvs out1 @ [vec2_zero ops]\<rparr>
                     else out1)
         in if normalIndices st \<noteq> [] \<and> i < length (normalIndices st)
               \<and> in_range (normalIndices st ! i) (temp_normals st)
            then out2\<lparr>out_normals :=
                        out_normals out2 @ [resolve (temp_normals st) (normalIndices st ! i)]\<rparr>
            else out2)
      else out)"

definition flatten :: "'f glm \<Rightarrow> 'f parse_state \<Rightarrow> 'f buffers \<Rightarrow> 'f buffers" where
  "flatten ops st out = foldl (flatten_step ops st) out [0..<length (vertexIndices st)]"

text \<open>
  \<^verbatim>\<open>loadOBJ\<close>: the file is \<open>None\<close> when it cannot be opened, else the lines that
  \<^verbatim>\<open>std::getline\<close> yields. The result is the returned \<^verbatim>\<open>bool\<close> with the output vectors,
  or the exception that leaves the function.
\<close>

definition loadOBJ :: "'f glm \<Rightarrow> string list option \<Rightarrow> 'f buffers \<Rightarrow> exn + (bool \<times> 'f buffers)" where
  "loadOBJ ops file out =
     (case file of
        None \<Rightarrow> Inr (False, out)
      | Some lines \<Rightarrow>
          (case parse_lines ops init_state lines of
             Inl e \<Rightarrow> Inl e
           | Inr st \<Rightarrow> Inr (True, flatten ops st out)))"

section \<open>The normal synthesizer: calculateSmoothNormals\<close>

text \<open>\<^verbatim>\<open>VertexKey::operator<\<close>.\<close>

definition key_less :: "'f glm \<Rightarrow> 'f vec3 \<Rightarrow> 'f vec3 \<Rightarrow> bool" where
  "key_less ops p q =
     (if fne ops (vx p) (vx q) then flt ops (vx p) (vx q)
      else if fne ops (vy p) (vy q) then flt ops (vy p) (vy q)
      else flt ops (vz p) (vz q))"

text \<open>
  \<^verbatim>\<open>std::map<VertexKey, std::vector<size_t>>\<close> is an association list in key order, and
  \<^verbatim>\<open>vertexMap[key].push_back(i)\<close> finds the entry whose key is neither less nor greater
  than \<open>key\<close>, or makes one at the place the order gives it.
\<close>

fun map_push :: "'f glm \<Rightarrow> 'f vec3 \<Rightarrow> nat \<Rightarrow> ('f vec3 \<times> nat list) list
                  \<Rightarrow> ('f vec3 \<times> nat list) list" where
  "map_push ops key i [] = [(key, [i])]"
| "map_push ops key i ((k, idxs) # m) =
     (if key_less ops key k then (key, [i]) # (k, idxs) # m
      else if key_less ops k key then (k, idxs) # map_push ops key i m
      else (k, idxs @ [i]) # m)"

definition build_vertexMap :: "'f glm \<Rightarrow> 'f vec3 list \<Rightarrow> ('f vec3 \<times> nat list) list" where
  "build_vertexMap ops vertices =
     foldl (\<lambda>m i. map_push ops (vertices ! i) i m) [] [0..<length vertices]"

text \<open>
  The second loop, \<^verbatim>\<open>for (size_t i = 0; i < vertices.size(); i += 3)\<close>, from \<open>i\<close> on.
\<close>

function face_normals :: "'f glm \<Rightarrow> 'f vec3 list \<Rightarrow> nat \<Rightarrow> 'f vec3 list \<Rightarrow> 'f vec3 list" where
  "face_normals ops vertices i normals =
     (if i < length vertices then
        face_normals ops vertices (i + 3)
          (if i + 2 < length vertices then
             (let v0 = vertices ! i;
                  v1 = vertices ! (i + 1);
                  v2 = vertices ! (i + 2);
                  edge1 = vminus ops v1 v0;
                  edge2 = vminus ops v2 v0;
                  faceNormal = cross ops edge1 edge2
              in normals[i := vplus ops (normals ! i) faceNormal,
                         i + 1 := vplus ops (normals ! (i + 1)) faceNormal,
                         i + 2 := vplus ops (normals ! (i + 2)) faceNormal])
           else normals)
      else normals)"
  by pat_completeness auto
termination
  by (relation "measure (\<lambda>(ops, vertices, i, normals). length vertices - i)") auto

declare face_normals.simps [simp del]

text \<open>The body of the third loop, for one entry of the map.\<close>

definition average_entry :: "'f glm \<Rightarrow> 'f vec3 list \<Rightarrow> 'f vec3 \<times> nat list \<Rightarrow> 'f vec3 list" where
  "average_entry ops normals entry =
     (let idxs = snd entry
      in if length idxs > 1 then
           (let avgNormal = normalize ops
                  (foldl (\<lambda>a idx. vplus ops a (normals ! idx)) (vec3_zero ops) idxs)
            in foldl (\<lambda>ns idx. ns[idx := avgNormal]) normals idxs)
         else if length idxs = 1 then
           normals[idxs ! 0 := normalize ops (normals ! (idxs ! 0))]
         else normals)"

definition calculateSmoothNormals :: "'f glm \<Rightarrow> 'f vec3 list \<Rightarrow> 'f vec3 list \<Rightarrow> 'f vec3 list" where
  "calculateSmoothNormals ops vertices normals =
     foldl (average_entry ops) (face_normals ops vertices 0 normals)
       (build_vertexMap ops vertices)"

section \<open>The load stage of main\<close>

text \<open>
  What \<^verbatim>\<open>main\<close> holds after loading: the three flat arrays and the centre of the model.
\<close>

record 'f scene =
  vertices :: "'f vec3 list"
  normals :: "'f vec3 list"
  uvs :: "'f vec2 list"
  center :: "'f vec3"

text \<open>
  \<^verbatim>\<open>for (const auto& vertex : vertices) center += vertex; center /= vertices.size();\<close>
\<close>

definition model_center :: "'f glm \<Rightarrow> 'f vec3 list \<Rightarrow> 'f vec3" where
  "model_center ops vs = vdiv_size ops (foldl (vplus ops) (vec3_zero ops) vs) (length vs)"

text \<open>
  From the call of \<^verbatim>\<open>loadOBJ\<close> to the computation of the centre. \<open>None\<close> is
  \<^verbatim>\<open>return -1\<close> after a failed load.
\<close>

definition main_load :: "'f glm \<Rightarrow> string list option \<Rightarrow> exn + 'f scene option" where
  "main_load ops file =
     (case loadOBJ ops file empty_buffers of
        Inl e \<Rightarrow> Inl e
      | Inr (ok, out) \<Rightarrow>
          if \<not> ok then Inr None
          else
            (let vs = out_vertices out;
                 ns = (if out_normals out = [] \<or> length (out_normals out) \<noteq> length vs
                       then calculateSmoothNormals ops vs (replicate (length vs) (vec3_zero ops))
                       else out_normals out)
             in Inr (Some \<lparr>vertices = vs, normals = ns, uvs = out_uvs out,
                           center = model_center ops vs\<rparr>)))"

section \<open>Interaction state: scroll_callback\<close>

text \<open>
  \<^verbatim>\<open>cameraPos.z\<close>, the zoom distance, is a \<^verbatim>\<open>float\<close>; \<^verbatim>\<open>yoffset\<close> is a \<^verbatim>\<open>double\<close> and
  \<^verbatim>\<open>0.2f\<close> a \<^verbatim>\<open>float\<close> literal. A finite float or double is modelled as the real number it
  denotes, and an IEEE 754 operation as the rounding of its exact result to the format, to
  nearest with ties to even.

  \<open>bits n\<close> is the length of \<open>n\<close> in binary, and \<open>binade a\<close> the exponent \<open>e\<close> with
  \<open>2 powi e \<le> a < 2 powi (e + 1)\<close> of a positive \<open>a\<close>.
\<close>

fun bits :: "nat \<Rightarrow> nat" where
  "bits n = (if n = 0 then 0 else Suc (bits (n div 2)))"

declare bits.simps [simp del]

definition binade :: "real \<Rightarrow> int" where
  "binade a =
     (if 1 \<le> a then int (bits (nat \<lfloor>a\<rfloor>)) - 1
      else (let k = int (bits (nat \<lfloor>1 / a\<rfloor>))
            in if 2 powi (1 - k) \<le> a then 1 - k else - k))"

text \<open>The nearest integer, the even one of two that are equally near.\<close>

definition round_half_even :: "real \<Rightarrow> int" where
  "round_half_even x =
     (let n = \<lfloor>x\<rfloor>; r = x - of_int n
      in if r < 1 / 2 then n else if 1 / 2 < r then n + 1 else if even n then n else n + 1)"

text \<open>
  Rounding to the binary format with \<open>p\<close> significand bits and least normal exponent
  \<open>emin\<close>: the result is the multiple of the spacing \<open>2 powi (e - p + 1)\<close> nearest to \<open>x\<close>,
  where \<open>e\<close> is the exponent of \<open>x\<close>, and \<open>emin\<close> for the subnormal numbers below
  \<open>2 powi emin\<close>. The exponent has no upper bound here: what lies beyond the largest
  number of the format rounds to an infinity in IEEE 754, and to a number as large in
  this model.
\<close>

definition round_binary :: "nat \<Rightarrow> int \<Rightarrow> real \<Rightarrow> real" where
  "round_binary p emin x =
     (if x = 0 then 0
      else (let e = max emin (binade \<bar>x\<bar>);
                q = 2 powi (e - int p + 1)
            in of_int (round_half_even (x / q)) * q))"

text \<open>\<^verbatim>\<open>float\<close> is binary32 and \<^verbatim>\<open>double\<close> is binary64.\<close>

definition to_float :: "real \<Rightarrow> real" where
  "to_float x = round_binary 24 (- 126) x"

definition to_double :: "real \<Rightarrow> real" where
  "to_double x = round_binary 53 (- 1022) x"

text \<open>
  \<^verbatim>\<open>cameraPos.z -= yoffset * 0.2f\<close> converts \<^verbatim>\<open>0.2f\<close> and \<^verbatim>\<open>cameraPos.z\<close> to
  \<^verbatim>\<open>double\<close>, which changes neither, multiplies and subtracts in \<^verbatim>\<open>double\<close>, each
  operation rounded on its own, and converts the difference to \<^verbatim>\<open>float\<close>; the two tests
  that follow compare floats, and \<^verbatim>\<open>0.5f\<close> and \<^verbatim>\<open>10.0f\<close> are exact. For a finite
  \<^verbatim>\<open>yoffset\<close> neither operation in \<^verbatim>\<open>double\<close> overflows, and where the conversion to
  \<^verbatim>\<open>float\<close> overflows the infinity is replaced by 0.5 or 10.0 as the large number is
  here. An infinite or NaN \<^verbatim>\<open>yoffset\<close> is not modelled.
\<close>

definition scroll_callback :: "real \<Rightarrow> real \<Rightarrow> real" where
  "scroll_callback z yoffset =
     (let z1 = to_float (to_double (z - to_double (yoffset * to_float 0.2)));
          z2 = (if z1 < 0.5 then 0.5 else z1)
      in if z2 > 10.0 then 10.0 else z2)"

text \<open>The zoom distance after a sequence of scroll events.\<close>

definition scroll_events :: "real \<Rightarrow> real list \<Rightarrow> real" where
  "scroll_events z yoffsets = foldl scroll_callback z yoffsets"

section \<open>An instance of the library parameters\<close>

text \<open>
  For evaluating the model on concrete files the library parameters are instantiated on
  the reals, with exact arithmetic and GLM's formulas. Its reader takes plain decimal
  numerals (sign, digits, an optional fraction, no exponent) separated by white space, and
  gives 0 to a component it cannot read. In the code \<^verbatim>\<open>operator>>\<close> stores 0 in a
  component that is there and is no number (C++11); a component that is missing, or that
  follows one that failed, is not written and keeps the value of the declaration, which
  is taken to be 0 here. Division is the one of the reals, with \<open>x / 0 = 0\<close>, where the
  float division gives an infinity or NaN: the instance says nothing about
  \<^verbatim>\<open>glm::normalize\<close> of a zero vector or about \<^verbatim>\<open>operator/=\<close> by zero, and no statement
  below evaluates them.
\<close>

definition read_decimal :: "string \<Rightarrow> (real \<times> string) option" where
  "read_decimal s =
     (let s1 = dropWhile isspace s;
          neg = (s1 \<noteq> [] \<and> hd s1 = CHR ''-'');
          s2 = (if s1 \<noteq> [] \<and> (hd s1 = CHR ''-'' \<or> hd s1 = CHR ''+'') then tl s1 else s1);
          ip = takeWhile isdigit s2;
          s3 = dropWhile isdigit s2;
          has_point = (s3 \<noteq> [] \<and> hd s3 = CHR ''.'');
          fp = (if has_point then takeWhile isdigit (tl s3) else []);
          s4 = (if has_point then dropWhile isdigit (tl s3) else s3);
          m = real (digits_value ip) + real (digits_value fp) / 10 ^ length fp
      in if ip = [] \<and> fp = [] then None else Some (if neg then - m else m, s4))"

definition read_decimals3 :: "string \<Rightarrow> real vec3" where
  "read_decimals3 s =
     (case read_decimal s of
        None \<Rightarrow> Vec3 0 0 0
      | Some (a, s1) \<Rightarrow>
          (case read_decimal s1 of
             None \<Rightarrow> Vec3 a 0 0
           | Some (b, s2) \<Rightarrow>
               (case read_decimal s2 of
                  None \<Rightarrow> Vec3 a b 0
                | Some (c, s3) \<Rightarrow> Vec3 a b c)))"

definition read_decimals2 :: "string \<Rightarrow> real vec2" where
  "read_decimals2 s =
     (case read_decimal s of
        None \<Rightarrow> Vec2 0 0
      | Some (a, s1) \<Rightarrow>
          (case read_decimal s1 of
             None \<Rightarrow> Vec2 a 0
           | Some (b, s2) \<Rightarrow> Vec2 a b))"

definition real_glm :: "real glm" where
  "real_glm =
     \<lparr>fzero = 0,
      flt = (\<lambda>a b. a < b),
      fne = (\<lambda>a b. a \<noteq> b),
      vplus = (\<lambda>p q. Vec3 (vx p + vx q) (vy p + vy q) (vz p + vz q)),
      vminus = (\<lambda>p q. Vec3 (vx p - vx q) (vy p - vy q) (vz p - vz q)),
      cross = (\<lambda>p q. Vec3 (vy p * vz q - vy q * vz p)
                            (vz p * vx q - vz q * vx p)
                            (vx p * vy q - vx q * vy p)),
      normalize = (\<lambda>p. let l = sqrt (vx p * vx p + vy p * vy p + vz p * vz p)
                        in Vec3 (vx p / l) (vy p / l) (vz p / l)),
      vdiv_size = (\<lambda>p n. Vec3 (vx p / real n) (vy p / real n) (vz p / real n)),
      read_vec3 = read_decimals3,
      read_vec2 = read_decimals2\<rparr>"


section \<open>Notions used in the statements\<close>

text \<open>The face normal of the group of three positions that starts at \<open>g\<close>.\<close>

definition face_normal :: "'f glm \<Rightarrow> 'f vec3 list \<Rightarrow> nat \<Rightarrow> 'f vec3" where
  "face_normal ops vs g =
     cross ops (vminus ops (vs ! (g + 1)) (vs ! g)) (vminus ops (vs ! (g + 2)) (vs ! g))"

text \<open>
  What one pass of the flattener's loop appends for the corner at place \<open>i\<close> of the index
  streams, when that corner's position index is in range.
\<close>

definition uv_emit :: "'f glm \<Rightarrow> 'f parse_state \<Rightarrow> nat \<Rightarrow> 'f vec2 list" where
  "uv_emit ops st i =
     (if uvIndices st \<noteq> [] \<and> i < length (uvIndices st) \<and> in_range (uvIndices st ! i) (temp_uvs st)
      then [resolve (temp_uvs st) (uvIndices st ! i)]
      else if temp_uvs st \<noteq> [] then [vec2_zero ops] else [])"

definition normal_emit :: "'f parse_state \<Rightarrow> nat \<Rightarrow> 'f vec3 list" where
  "normal_emit st i =
     (if normalIndices st \<noteq> [] \<and> i < length (normalIndices st)
         \<and> in_range (normalIndices st ! i) (temp_normals st)
      then [resolve (temp_normals st) (normalIndices st ! i)]
      else [])"

definition valid_corner :: "'f parse_state \<Rightarrow> nat \<Rightarrow> bool" where
  "valid_corner st i = in_range (vertexIndices st ! i) (temp_vertices st)"

text \<open>
  A face corner as the specification has it: the position index and the optional texture
  and normal indices that the corner's string declares, or the exception of the first
  field that \<^verbatim>\<open>stoi\<close> rejects.
\<close>

type_synonym corner = "int \<times> int option \<times> int option"

definition parse_corner :: "string \<Rightarrow> exn + corner" where
  "parse_corner vertex =
     (let (token, viss1) = (case getline_slash vertex of None \<Rightarrow> ([], []) | Some p \<Rightarrow> p)
      in case stoi token of
           Inl e \<Rightarrow> Inl e
         | Inr p \<Rightarrow>
             (case optional_index viss1 of
                Inl e \<Rightarrow> Inl e
              | Inr (t, viss2) \<Rightarrow>
                  (case optional_index viss2 of
                     Inl e \<Rightarrow> Inl e
                   | Inr (n, viss3) \<Rightarrow> Inr (p, t, n))))"

text \<open>
  What a corner adds to the three index streams: always its position index, and its
  texture and normal index only when it declares them.
\<close>

definition index_entry :: "int option \<Rightarrow> 32 word list" where
  "index_entry k = (case k of None \<Rightarrow> [] | Some i \<Rightarrow> [word_of_int i])"

definition push_corner :: "'f parse_state \<Rightarrow> corner \<Rightarrow> 'f parse_state" where
  "push_corner st c =
     (case c of (p, t, n) \<Rightarrow>
        st\<lparr>vertexIndices := vertexIndices st @ [word_of_int p],
           uvIndices := uvIndices st @ index_entry t,
           normalIndices := normalIndices st @ index_entry n\<rparr>)"

text \<open>
  The corners of a list of corner strings, of a line (none unless it is a face record) and
  of a file, in file order; the first exception, if a field is rejected.
\<close>

fun parse_corners :: "string list \<Rightarrow> exn + corner list" where
  "parse_corners [] = Inr []"
| "parse_corners (vertex # rest) =
     (case parse_corner vertex of
        Inl e \<Rightarrow> Inl e
      | Inr c \<Rightarrow> (case parse_corners rest of Inl e \<Rightarrow> Inl e | Inr cs \<Rightarrow> Inr (c # cs)))"

definition line_corners :: "string \<Rightarrow> exn + corner list" where
  "line_corners line =
     (let (prefix, iss) = extract_word line
      in if prefix = ''f'' then parse_corners (face_vertices iss) else Inr [])"

fun file_corners :: "string list \<Rightarrow> exn + corner list" where
  "file_corners [] = Inr []"
| "file_corners (line # rest) =
     (case line_corners line of
        Inl e \<Rightarrow> Inl e
      | Inr cs \<Rightarrow> (case file_corners rest of Inl e \<Rightarrow> Inl e | Inr ds \<Rightarrow> Inr (cs @ ds)))"







definition map_indices :: "('f vec3 \<times> nat list) list \<Rightarrow> nat list" where
  "map_indices m = concat (map snd m)"

definition keys_sorted :: "'f glm \<Rightarrow> ('f vec3 \<times> nat list) list \<Rightarrow> bool" where
  "keys_sorted ops m = sorted_wrt (\<lambda>e1 e2. key_less ops (fst e1) (fst e2)) m"

text \<open>
  A line is cut into words at white space: a blank is a run of white space, a word a
  non-empty run of other characters.
\<close>

definition is_blank :: "string \<Rightarrow> bool" where
  "is_blank s = list_all isspace s"

definition is_word :: "string \<Rightarrow> bool" where
  "is_word s = (s \<noteq> [] \<and> list_all (\<lambda>c. \<not> isspace c) s)"

text \<open>
  The position index and the texture index of a corner as the index streams store them,
  and the positions that the flattener emits for a list of corners.
\<close>

definition position_word :: "corner \<Rightarrow> 32 word" where
  "position_word c = word_of_int (fst c)"

definition texture_word :: "corner \<Rightarrow> 32 word" where
  "texture_word c = word_of_int (the (fst (snd c)))"

definition corner_positions :: "'f parse_state \<Rightarrow> corner list \<Rightarrow> 'f vec3 list" where
  "corner_positions st cs =
     map (resolve (temp_vertices st))
       (filter (\<lambda>w. in_range w (temp_vertices st)) (map position_word cs))"

section \<open>Sample meshes\<close>

text \<open>The quad of the specification's scenario: 4 positions and one face of 4 corners.\<close>

definition quad_mesh :: "string list" where
  "quad_mesh = [''v 0 0 0'', ''v 1 0 0'', ''v 1 1 0'', ''v 0 1 0'', ''f 1 2 3 4'']"

text \<open>A triangle without normal indices, then the same triangle with them.\<close>

definition mixed_normals_mesh :: "string list" where
  "mixed_normals_mesh =
     [''v 0 0 0'', ''v 1 0 0'', ''v 0 1 0'', ''vn 0 0 1'', ''f 1 2 3'', ''f 1//1 2//1 3//1'']"

text \<open>A triangle whose corners carry texture indices, in a file without a \<^verbatim>\<open>vt\<close> record.\<close>

definition untextured_mesh :: "string list" where
  "untextured_mesh = [''v 0 0 0'', ''v 1 0 0'', ''v 0 1 0'', ''f 1/1 2/1 3/1'']"

text \<open>A triangle with one texture coordinate; the third corner's texture index is out of range.\<close>

definition textured_mesh :: "string list" where
  "textured_mesh = [''v 0 0 0'', ''v 1 0 0'', ''v 0 1 0'', ''vt 0.5 0.25'', ''f 1/1 2/1 3/7'']"

text \<open>A triangle whose first position record has a last field that is not a number.\<close>

definition malformed_vertex_mesh :: "string list" where
  "malformed_vertex_mesh = [''v 0 0 abc'', ''v 1 0 0'', ''v 0 1 0'', ''f 1 2 3'']"

text \<open>A face whose second corner is not a number.\<close>

definition malformed_index_mesh :: "string list" where
  "malformed_index_mesh = [''v 0 0 0'', ''f 1 x 3'']"

text \<open>A file without a face, and a file whose only face refers to no parsed position.\<close>

definition points_mesh :: "string list" where
  "points_mesh = [''v 0 0 0'']"

definition dangling_mesh :: "string list" where
  "dangling_mesh = [''v 0 0 0'', ''f 0 2 -1'']"


section \<open>Rounding to a binary format\<close>

lemma bits_pos: "0 < n \<Longrightarrow> 0 < bits n"
  by (simp add: bits.simps [of n])

lemma bits_one: "bits (Suc 0) = Suc 0"
  by (simp add: bits.simps [of "Suc 0"] bits.simps [of 0])

lemma bits_bounds: "0 < n \<Longrightarrow> 2 ^ (bits n - 1) \<le> n \<and> n < 2 ^ bits n"
proof (induction n rule: bits.induct)
  case (1 n)
  show ?case
  proof (cases "n div 2 = 0")
    case True
    with "1.prems" have "n = 1"
      by (simp add: div_eq_0_iff) 
    then show ?thesis
      by (simp add: bits_one)
  next
    case False
    then have m: "0 < n div 2"
      by simp
    from "1.IH" [OF _ m] "1.prems"
    have IH: "2 ^ (bits (n div 2) - 1) \<le> n div 2" "n div 2 < 2 ^ bits (n div 2)"
      by simp_all
    have b: "bits n = Suc (bits (n div 2))"
      using "1.prems" by (simp add: bits.simps [of n])
    have p: "2 ^ bits (n div 2) = 2 * (2::nat) ^ (bits (n div 2) - 1)"
      using bits_pos [OF m] by (cases "bits (n div 2)") simp_all
    have "2 ^ bits (n div 2) \<le> n"
      unfolding p using IH(1) by linarith
    moreover have "n < 2 * 2 ^ bits (n div 2)"
      using IH(2) by linarith
    ultimately show ?thesis
      by (simp add: b)
  qed
qed

lemma binade_bounds:
  assumes "0 < a"
  shows "2 powi binade a \<le> a" and "a < 2 powi (binade a + 1)"
proof -
  have "2 powi binade a \<le> a \<and> a < 2 powi (binade a + 1)"
  proof (cases "1 \<le> a")
    case True
    define n where "n = nat \<lfloor>a\<rfloor>"
    have n: "0 < n" "real n \<le> a" "a < real n + 1"
      using True by (simp_all add: n_def)
    have e: "binade a = int (bits n) - 1"
      using True by (simp add: binade_def n_def)
    from bits_bounds [OF n(1)] have bn: "2 ^ (bits n - 1) \<le> n" "Suc n \<le> 2 ^ bits n"
      by simp_all
    have r1: "(2::real) ^ (bits n - 1) \<le> real n"
      using of_nat_mono [OF bn(1), where 'a = real] by simp
    have r2: "real n + 1 \<le> 2 ^ bits n"
      using of_nat_mono [OF bn(2), where 'a = real] by simp
    have "int (bits n) - 1 = int (bits n - 1)"
      using bits_pos [OF n(1)] by simp
    then have p1: "2 powi (int (bits n) - 1) = (2::real) ^ (bits n - 1)"
      by (simp only: power_int_of_nat)
    have p2: "2 powi (int (bits n) - 1 + 1) = (2::real) ^ bits n"
      by simp
    show ?thesis
      unfolding e p1 p2 using r1 r2 n by linarith
  next
    case False
    define m where "m = nat \<lfloor>1 / a\<rfloor>"
    define k where "k = bits m"
    have a1: "1 < 1 / a"
      using assms False by simp
    have fpos: "1 \<le> \<lfloor>1 / a\<rfloor>"
      using a1 by (simp add: le_floor_iff)
    have rm: "real m = of_int \<lfloor>1 / a\<rfloor>"
      unfolding m_def by (rule of_nat_nat) (use fpos in linarith)
    have m0: "0 < m"
      unfolding m_def zero_less_nat_eq using fpos by linarith
    have m: "0 < m" "real m \<le> 1 / a" "1 / a < real m + 1"
      unfolding rm using m0 by (simp, linarith, linarith)
    from bits_bounds [OF m(1)] have bm: "2 ^ (k - 1) \<le> m" "Suc m \<le> 2 ^ k"
      unfolding k_def by simp_all
    have "(2::real) ^ (k - 1) \<le> real m" "real m + 1 \<le> 2 ^ k"
      using of_nat_mono [OF bm(1), where 'a = real] of_nat_mono [OF bm(2), where 'a = real]
      by simp_all
    then have b: "2 ^ (k - 1) \<le> 1 / a" "1 / a < 2 ^ k"
      using m by linarith+
    have kp: "0 < k"
      unfolding k_def by (rule bits_pos [OF m(1)])
    have lo: "2 powi (- int k) < a"
    proof -
      have "a * (1 / a) < a * 2 ^ k"
        using b(2) assms by (simp only: mult_less_cancel_left_pos)
      then have "1 < a * 2 ^ k"
        using assms by simp
      then have "1 / 2 ^ k < a"
        by (simp add: field_simps)
      then show ?thesis
        by (simp add: power_int_minus_divide)
    qed
    have hi: "a \<le> 2 powi (1 - int k)"
    proof -
      have "a * 2 ^ (k - 1) \<le> a * (1 / a)"
        using b(1) assms by (simp only: mult_le_cancel_left_pos)
      then have "a * 2 ^ (k - 1) \<le> 1"
        using assms by simp
      then have "a \<le> 1 / 2 ^ (k - 1)"
        by (simp add: field_simps)
      moreover have "1 - int k = - int (k - 1)"
        using kp by simp
      ultimately show ?thesis
        by (simp add: power_int_minus_divide del: of_nat_diff)
    qed
    have e: "binade a = (if 2 powi (1 - int k) \<le> a then 1 - int k else - int k)"
      using False by (simp add: binade_def m_def k_def Let_def)
    show ?thesis
    proof (cases "2 powi (1 - int k) \<le> a")
      case True
      have "(2::real) powi (1 - int k) < 2 powi (1 - int k + 1)"
        by (rule power_int_strict_increasing) simp_all
      then show ?thesis
        using True hi by (simp add: e)
    next
      case False
      then have "a < 2 powi (- int k + 1)"
        by (simp add: add.commute)
      then show ?thesis
        using False lo by (simp add: e)
    qed
  qed
  then show "2 powi binade a \<le> a" and "a < 2 powi (binade a + 1)"
    by simp_all
qed

lemma binade_unique:
  assumes "2 powi e \<le> a" and "a < 2 powi (e + 1)"
  shows "binade a = e"
proof -
  have pos: "0 < a"
    using assms(1) by (rule less_le_trans [rotated]) simp
  note b = binade_bounds [OF pos]
  have "\<not> binade a < e"
  proof
    assume "binade a < e"
    then have "(2::real) powi (binade a + 1) \<le> 2 powi e"
      by (intro power_int_increasing) simp_all
    with b(2) assms(1) show False
      by linarith
  qed
  moreover have "\<not> e < binade a"
  proof
    assume "e < binade a"
    then have "(2::real) powi (e + 1) \<le> 2 powi binade a"
      by (intro power_int_increasing) simp_all
    with b(1) assms(2) show False
      by linarith
  qed
  ultimately show ?thesis
    by simp
qed

lemma round_half_even_cases:
  "round_half_even x = \<lfloor>x\<rfloor> \<and> x - of_int \<lfloor>x\<rfloor> \<le> 1 / 2
   \<or> round_half_even x = \<lfloor>x\<rfloor> + 1 \<and> 1 / 2 \<le> x - of_int \<lfloor>x\<rfloor>"
  by (simp add: round_half_even_def Let_def)

lemma round_half_even_error: "\<bar>of_int (round_half_even x) - x\<bar> \<le> 1 / 2"
  using round_half_even_cases [of x] by (auto simp: abs_le_iff)

lemma round_half_even_nonpos: "x \<le> 0 \<Longrightarrow> round_half_even x \<le> 0"
proof -
  assume x: "x \<le> 0"
  then have f: "\<lfloor>x\<rfloor> \<le> 0"
    by simp
  show ?thesis
  proof (cases "\<lfloor>x\<rfloor> = 0")
    case True
    then have "x = 0"
      using x by (metis floor_le_zero floor_less_zero le_less of_int_floor_le of_int_0 order_antisym)
    then show ?thesis
      by (simp add: round_half_even_def)
  next
    case False
    with f have "\<lfloor>x\<rfloor> + 1 \<le> 0"
      by linarith
    then show ?thesis
      using round_half_even_cases [of x] f by auto
  qed
qed

lemma round_half_even_nonneg: "0 \<le> x \<Longrightarrow> 0 \<le> round_half_even x"
  using round_half_even_cases [of x] by (auto simp: zero_le_floor)

lemma round_half_even_near:
  assumes "\<bar>x - of_int n\<bar> < 1 / 2"
  shows "round_half_even x = n"
proof -
  have "\<bar>of_int (round_half_even x) - (of_int n :: real)\<bar> < 1"
    using round_half_even_error [of x] assms by linarith
  then have "\<bar>round_half_even x - n\<bar> < 1"
    by (metis of_int_abs of_int_diff of_int_less_1_iff)
  then show ?thesis
    by simp
qed


lemma round_binary_quantum:
  assumes "x \<noteq> 0"
  shows "\<bar>round_binary p emin x - x\<bar> \<le> 2 powi (max emin (binade \<bar>x\<bar>) - int p)"
proof -
  define e where "e = max emin (binade \<bar>x\<bar>)"
  define q :: real where "q = 2 powi (e - int p + 1)"
  have q: "0 < q" "q = 2 * 2 powi (e - int p)"
    by (simp_all add: q_def power_int_add)
  have r: "round_binary p emin x = of_int (round_half_even (x / q)) * q"
    using assms by (simp add: round_binary_def Let_def e_def q_def)
  have "round_binary p emin x - x = (of_int (round_half_even (x / q)) - x / q) * q"
    using q(1) by (simp add: r left_diff_distrib)
  then have "\<bar>round_binary p emin x - x\<bar> = \<bar>of_int (round_half_even (x / q)) - x / q\<bar> * q"
    using q(1) by (simp add: abs_mult)
  also have "\<dots> \<le> 1 / 2 * q"
    using round_half_even_error [of "x / q"] q(1) by (intro mult_right_mono) simp_all
  also have "\<dots> = 2 powi (e - int p)"
    by (simp add: q(2))
  finally show ?thesis
    by (simp only: e_def)
qed

lemma binade_less:
  assumes "0 < a" and "a < 2 powi (E + 1)"
  shows "binade a \<le> E"
proof (rule ccontr)
  assume "\<not> binade a \<le> E"
  then have "(2::real) powi (E + 1) \<le> 2 powi binade a"
    by (intro power_int_increasing) simp_all
  with binade_bounds(1) [OF assms(1)] assms(2) show False
    by linarith
qed

lemma binade_ge:
  assumes "2 powi E \<le> a"
  shows "E \<le> binade a"
proof (rule ccontr)
  have pos: "0 < a"
    using assms by (rule less_le_trans [rotated]) simp
  assume "\<not> E \<le> binade a"
  then have "(2::real) powi (binade a + 1) \<le> 2 powi E"
    by (intro power_int_increasing) simp_all
  with binade_bounds(2) [OF pos] assms show False
    by linarith
qed

text \<open>The rounding error below a power of two, and relative to a normal number.\<close>

lemma round_binary_error:
  assumes "\<bar>x\<bar> < 2 powi (E + 1)" and "emin \<le> E"
  shows "\<bar>round_binary p emin x - x\<bar> \<le> 2 powi (E - int p)"
proof (cases "x = 0")
  case True
  then show ?thesis
    by (simp add: round_binary_def)
next
  case False
  then have "binade \<bar>x\<bar> \<le> E"
    using assms(1) by (intro binade_less) simp_all
  then have "max emin (binade \<bar>x\<bar>) - int p \<le> E - int p"
    using assms(2) by simp
  then have "(2::real) powi (max emin (binade \<bar>x\<bar>) - int p) \<le> 2 powi (E - int p)"
    by (intro power_int_increasing) simp_all
  with round_binary_quantum [OF False, of p emin] show ?thesis
    by linarith
qed

lemma round_binary_relative:
  assumes "2 powi emin \<le> \<bar>x\<bar>"
  shows "\<bar>round_binary p emin x - x\<bar> \<le> 2 powi (- int p) * \<bar>x\<bar>"
proof -
  have pos: "0 < \<bar>x\<bar>"
    using assms by (rule less_le_trans [rotated]) simp
  then have x: "x \<noteq> 0"
    by simp
  have "emin \<le> binade \<bar>x\<bar>"
    using assms by (rule binade_ge)
  then have e: "max emin (binade \<bar>x\<bar>) = binade \<bar>x\<bar>"
    by simp
  have "(2::real) powi (binade \<bar>x\<bar> - int p) = 2 powi (- int p) * 2 powi binade \<bar>x\<bar>"
    by (simp add: power_int_diff power_int_minus_divide)
  also have "\<dots> \<le> 2 powi (- int p) * \<bar>x\<bar>"
    using binade_bounds(1) [OF pos] by (intro mult_left_mono) simp_all
  finally show ?thesis
    using round_binary_quantum [OF x, of p emin] unfolding e by linarith
qed

lemma round_binary_nonpos:
  assumes "x \<le> 0"
  shows "round_binary p emin x \<le> 0"
proof (cases "x = 0")
  case True
  then show ?thesis
    by (simp add: round_binary_def)
next
  case False
  define q :: real where "q = 2 powi (max emin (binade \<bar>x\<bar>) - int p + 1)"
  have q: "0 < q"
    by (simp add: q_def)
  then have "x / q \<le> 0"
    using assms by (simp add: divide_le_0_iff)
  then have "round_half_even (x / q) \<le> 0"
    by (rule round_half_even_nonpos)
  then have "of_int (round_half_even (x / q)) * q \<le> 0"
    using q by (simp add: mult_le_0_iff)
  then show ?thesis
    using False by (simp add: round_binary_def Let_def q_def)
qed

lemma round_binary_nonneg:
  assumes "0 \<le> x"
  shows "0 \<le> round_binary p emin x"
proof (cases "x = 0")
  case True
  then show ?thesis
    by (simp add: round_binary_def)
next
  case False
  define q :: real where "q = 2 powi (max emin (binade \<bar>x\<bar>) - int p + 1)"
  have q: "0 < q"
    by (simp add: q_def)
  then have "0 \<le> x / q"
    using assms by simp
  then have "0 \<le> round_half_even (x / q)"
    by (rule round_half_even_nonneg)
  then have "0 \<le> of_int (round_half_even (x / q)) * q"
    using q by simp
  then show ?thesis
    using False by (simp add: round_binary_def Let_def q_def)
qed

text \<open>A number within half a quantum of a multiple of the quantum rounds to that multiple.\<close>

lemma round_binary_near:
  assumes "2 powi e \<le> \<bar>x\<bar>" and "\<bar>x\<bar> < 2 powi (e + 1)" and "emin \<le> e"
    and "\<bar>x / 2 powi (e - int p + 1) - of_int n\<bar> < 1 / 2"
  shows "round_binary p emin x = of_int n * 2 powi (e - int p + 1)"
proof -
  have pos: "0 < \<bar>x\<bar>"
    using assms(1) by (rule less_le_trans [rotated]) simp
  have "binade \<bar>x\<bar> = e"
    using assms(1,2) by (rule binade_unique)
  then have "max emin (binade \<bar>x\<bar>) = e"
    using assms(3) by simp
  then have "round_binary p emin x
               = of_int (round_half_even (x / 2 powi (e - int p + 1))) * 2 powi (e - int p + 1)"
    using pos by (simp add: round_binary_def Let_def)
  then show ?thesis
    by (simp only: round_half_even_near [OF assms(4)])
qed

text \<open>The literal \<^verbatim>\<open>0.2f\<close>.\<close>

lemma float_fifth: "to_float 0.2 = 13421773 / 67108864"
proof -
  have "round_binary 24 (- 126) (1 / 5) = of_int 13421773 * 2 powi (- 3 - int 24 + 1)"
    by (rule round_binary_near) (simp_all add: power_int_minus_divide)
  then show ?thesis
    by (simp add: to_float_def power_int_minus_divide)
qed


section \<open>Scroll events\<close>

lemma scroll_callback_floor: "0.5 \<le> scroll_callback z y"
  by (simp add: scroll_callback_def Let_def)

lemma scroll_callback_ceiling: "scroll_callback z y \<le> 10"
  by (simp add: scroll_callback_def Let_def)

lemma scroll_callback_clamp:
  "scroll_callback z y \<le> max (1 / 2) (to_float (to_double (z - to_double (y * to_float 0.2))))"
  by (simp add: scroll_callback_def Let_def max_def)

text \<open>
  One zoom-in request of at least a thousandth: the three roundings cost less than a
  twentieth of the step.
\<close>

lemma scroll_callback_zoom_in:
  assumes "z \<le> 10" and "1 / 1000 \<le> y"
  shows "scroll_callback z y \<le> max (1 / 2) (z - 19 / 100 * y)"
proof -
  define c :: real where "c = 13421773 / 67108864"
  define p where "p = to_double (y * c)"
  define d where "d = z - p"
  define s where "s = to_double d"
  define t where "t = to_float s"
  have yc: "1 / 8192 \<le> y * c" "0 < y * c"
    using assms(2) by (simp_all add: c_def)
  have "(2::real) powi (- 1022) \<le> 2 powi (- 13)"
    by (intro power_int_increasing) simp_all
  also have "\<dots> \<le> \<bar>y * c\<bar>"
    using yc by (simp add: power_int_minus_divide)
  finally have "\<bar>p - y * c\<bar> \<le> 2 powi (- int 53) * \<bar>y * c\<bar>"
    unfolding p_def to_double_def by (rule round_binary_relative)
  then have "\<bar>p - y * c\<bar> \<le> 2 powi (- int 53) * (y * c)"
    using yc(2) by (simp only: abs_of_pos)
  then have "y * c - 2 powi (- int 53) * (y * c) \<le> p"
    by linarith
  moreover have "y * (1 / 5) \<le> y * (c * (1 - 2 powi (- int 53)))"
    using assms(2) by (intro mult_left_mono) (simp_all add: c_def power_int_minus_divide)
  ultimately have p: "y / 5 \<le> p"
    by (simp add: algebra_simps)
  then have d: "d \<le> z - y / 5" "d < 16"
    using assms by (simp_all add: d_def)
  have s: "s \<le> max 0 (d + 1 / 2 ^ 50)"
  proof (cases "d \<le> 0")
    case True
    then have "s \<le> 0"
      unfolding s_def to_double_def by (rule round_binary_nonpos)
    then show ?thesis
      by simp
  next
    case False
    then have "\<bar>d\<bar> < 2 powi (3 + 1)"
      using d(2) by simp
    then have "\<bar>s - d\<bar> \<le> 2 powi (3 - int 53)"
      unfolding s_def to_double_def by (rule round_binary_error) simp
    moreover have "2 powi (3 - int 53) = (1 / 2 ^ 50 :: real)"
      by (simp add: power_int_minus_divide)
    ultimately have "s \<le> d + 1 / 2 ^ 50"
      by linarith
    then show ?thesis
      by (rule max.coboundedI2)
  qed
  have t: "t \<le> max 0 (d + 1 / 2 ^ 50 + 1 / 2 ^ 21)"
  proof (cases "s \<le> 0")
    case True
    then have "t \<le> 0"
      unfolding t_def to_float_def by (rule round_binary_nonpos)
    then show ?thesis
      by simp
  next
    case False
    with s have sd: "s \<le> d + 1 / 2 ^ 50"
      by simp
    have "d \<le> 10"
      using d(1) assms by linarith
    moreover have "(1 / 2 ^ 50 :: real) \<le> 1"
      by simp
    ultimately have "s < 16"
      using sd by linarith
    then have "\<bar>s\<bar> < 2 powi (3 + 1)"
      using False by simp
    then have "\<bar>t - s\<bar> \<le> 2 powi (3 - int 24)"
      unfolding t_def to_float_def by (rule round_binary_error) simp
    moreover have "2 powi (3 - int 24) = (1 / 2 ^ 21 :: real)"
      by (simp add: power_int_minus_divide)
    ultimately have "t \<le> d + 1 / 2 ^ 50 + 1 / 2 ^ 21"
      using sd by linarith
    then show ?thesis
      by (rule max.coboundedI2)
  qed
  have "d + 1 / 2 ^ 50 + 1 / 2 ^ 21 \<le> z - 19 / 100 * y"
    using d(1) assms(2) by simp
  with t have "t \<le> max 0 (z - 19 / 100 * y)"
    by simp
  then have "max (1 / 2) t \<le> max (1 / 2) (z - 19 / 100 * y)"
    by simp
  moreover have "scroll_callback z y \<le> max (1 / 2) t"
    using scroll_callback_clamp [of z y]
    by (simp only: t_def s_def d_def p_def c_def float_fifth)
  ultimately show ?thesis
    by linarith
qed

lemma max_step:
  fixes a :: real
  assumes "a \<le> max h (z - k * y)" and "0 \<le> k * S"
  shows "max h (a - k * S) \<le> max h (z - k * (y + S))"
proof -
  have d: "k * (y + S) = k * y + k * S"
    by (rule distrib_left)
  from assms(1) consider "a \<le> h" | "a \<le> z - k * y"
    by (auto simp: le_max_iff_disj)
  then have "a - k * S \<le> max h (z - k * (y + S))"
  proof cases
    case 1
    with assms(2) have "a - k * S \<le> h"
      by linarith
    then show ?thesis
      by (rule max.coboundedI1)
  next
    case 2
    with assms(2) d have "a - k * S \<le> z - k * (y + S)"
      by linarith
    then show ?thesis
      by (rule max.coboundedI2)
  qed
  then show ?thesis
    by simp
qed

lemma scroll_events_zoom_in:
  "z \<le> 10 \<Longrightarrow> \<forall>y \<in> set ys. 1 / 1000 \<le> y \<Longrightarrow>
     scroll_events z ys \<le> max (1 / 2) (z - 19 / 100 * sum_list ys)"
proof (induction ys arbitrary: z)
  case Nil
  then show ?case by (simp add: scroll_events_def)
next
  case (Cons y ys)
  have y: "1 / 1000 \<le> y" and ys: "\<forall>y \<in> set ys. 1 / 1000 \<le> y"
    using Cons.prems(2) by simp_all
  have nonneg: "0 \<le> sum_list ys"
    using ys by (intro sum_list_nonneg) force
  have "scroll_events z (y # ys) = scroll_events (scroll_callback z y) ys"
    by (simp add: scroll_events_def)
  also have "\<dots> \<le> max (1 / 2) (scroll_callback z y - 19 / 100 * sum_list ys)"
    using scroll_callback_ceiling ys by (rule Cons.IH)
  also have "\<dots> \<le> max (1 / 2) (z - 19 / 100 * (y + sum_list ys))"
    using scroll_callback_zoom_in [OF Cons.prems(1) y] by (rule max_step) (use nonneg in simp)
  also have "y + sum_list ys = sum_list (y # ys)"
    by simp
  finally show ?case .
qed

lemma scroll_events_floor: "ys \<noteq> [] \<Longrightarrow> 0.5 \<le> scroll_events z ys"
proof (induction ys rule: rev_induct)
  case Nil
  then show ?case by simp
next
  case (snoc y ys')
  show ?case
    using scroll_callback_floor [of "foldl scroll_callback z ys'" y]
    by (simp add: scroll_events_def)
qed

text \<open>
  C8, as the code has it. \<^verbatim>\<open>cameraPos.z -= yoffset * 0.2f\<close> lowers the zoom distance for
  a positive \<open>yoffset\<close>: the zoom-in requests are the positive offsets. Starting from a
  zoom distance of at most 10 (the initial 3 and every value that a scroll event leaves),
  scroll events whose offsets are each at least a thousandth and sum to 50 leave the zoom
  distance at its floor 0.5, in float arithmetic as the code computes it, and after each
  of these events the distance is at least 0.5.
\<close>

theorem scroll_zoom_in_reaches_floor:
  assumes "z \<le> 10" and "\<forall>y \<in> set ys. 1 / 1000 \<le> y" and "sum_list ys = 50"
  shows "scroll_events z ys = 0.5
         \<and> (\<forall>k. 0 < k \<and> k \<le> length ys \<longrightarrow> 0.5 \<le> scroll_events z (take k ys))"
proof -
  have ne: "ys \<noteq> []"
    using assms(3) by auto
  have "scroll_events z ys \<le> max (1 / 2) (z - 19 / 100 * sum_list ys)"
    using assms(1,2) by (rule scroll_events_zoom_in)
  also have "\<dots> = 0.5"
    using assms(1,3) by simp
  finally have "scroll_events z ys \<le> 0.5" .
  moreover have "0.5 \<le> scroll_events z ys"
    using ne by (rule scroll_events_floor)
  ultimately have a: "scroll_events z ys = 0.5"
    by simp
  have b: "\<forall>k. 0 < k \<and> k \<le> length ys \<longrightarrow> 0.5 \<le> scroll_events z (take k ys)"
  proof (intro allI impI)
    fix k
    assume "0 < k \<and> k \<le> length ys"
    then have "take k ys \<noteq> []"
      using ne by simp
    then show "0.5 \<le> scroll_events z (take k ys)"
      by (rule scroll_events_floor)
  qed
  from a b show ?thesis
    by simp
qed

theorem scroll_zoom_in_reaches_floor_witness:
  "(3::real) \<le> 10 \<and> (1 / 1000 \<le> (20::real)) \<and> (1 / 1000 \<le> (30::real))
   \<and> sum_list [20, 30::real] = 50
   \<and> scroll_events 3 [20, 30] = 0.5 \<and> 0.5 \<le> scroll_events 3 (take 1 [20, 30])"
proof -
  have h: "(3::real) \<le> 10" "\<forall>y \<in> set [20, 30::real]. 1 / 1000 \<le> y" "sum_list [20, 30::real] = 50"
    by simp_all
  note t = scroll_zoom_in_reaches_floor [OF h]
  from t [THEN conjunct2, rule_format, of 1]
  have "0.5 \<le> scroll_events 3 (take 1 [20, 30])"
    by simp
  with t [THEN conjunct1] h show ?thesis
    by simp
qed


lemma scroll_callback_above:
  "10 \<le> to_float (to_double (z - to_double (y * to_float 0.2))) \<Longrightarrow> scroll_callback z y = 10"
  by (simp add: scroll_callback_def Let_def)

text \<open>A zoom-out request of 50 from the initial distance 3.0.\<close>

lemma scroll_out_from_initial: "scroll_callback 3 (- 50) = 10"
proof -
  define c :: real where "c = 13421773 / 67108864"
  define p where "p = to_double (- 50 * c)"
  define d where "d = 3 - p"
  define s where "s = to_double d"
  define t where "t = to_float s"
  have e: "2 powi (3 - int 53) = (1 / 2 ^ 50 :: real)" "2 powi (3 - int 24) = (1 / 2 ^ 21 :: real)"
    by (simp_all add: power_int_minus_divide)
  have small: "(1 / 2 ^ 50 :: real) \<le> 1 / 10" "(1 / 2 ^ 21 :: real) \<le> 1 / 10"
    by simp_all
  have yc: "- 50 * c \<le> - 10" "- 11 \<le> - 50 * c"
    by (simp_all add: c_def)
  then have "\<bar>- 50 * c\<bar> < 2 powi (3 + 1)"
    by simp
  then have "\<bar>p - - 50 * c\<bar> \<le> 2 powi (3 - int 53)"
    unfolding p_def to_double_def by (rule round_binary_error) simp
  with yc e(1) small(1) have p: "p \<le> - 99 / 10" "- 12 \<le> p"
    by linarith+
  then have d: "129 / 10 \<le> d" "d \<le> 15"
    by (simp_all add: d_def)
  then have "\<bar>d\<bar> < 2 powi (3 + 1)"
    by simp
  then have "\<bar>s - d\<bar> \<le> 2 powi (3 - int 53)"
    unfolding s_def to_double_def by (rule round_binary_error) simp
  with d e(1) small(1) have s: "128 / 10 \<le> s" "s \<le> 151 / 10"
    by linarith+
  then have "\<bar>s\<bar> < 2 powi (3 + 1)"
    by simp
  then have "\<bar>t - s\<bar> \<le> 2 powi (3 - int 24)"
    unfolding t_def to_float_def by (rule round_binary_error) simp
  with s e(2) small(2) have "10 \<le> t"
    by linarith
  then have "10 \<le> to_float (to_double (3 - to_double (- 50 * to_float 0.2)))"
    by (simp only: t_def s_def d_def p_def c_def float_fifth)
  then show ?thesis
    by (rule scroll_callback_above)
qed

text \<open>A zoom-in request of 50 from a distance of 1000.\<close>

lemma scroll_in_from_far: "scroll_callback 1000 50 = 10"
proof -
  define c :: real where "c = 13421773 / 67108864"
  define p where "p = to_double (50 * c)"
  define d where "d = 1000 - p"
  define s where "s = to_double d"
  define t where "t = to_float s"
  have e: "2 powi (3 - int 53) = (1 / 2 ^ 50 :: real)" "2 powi (9 - int 53) = (1 / 2 ^ 44 :: real)"
    "2 powi (9 - int 24) = (1 / 2 ^ 15 :: real)"
    by (simp_all add: power_int_minus_divide)
  have small: "(1 / 2 ^ 50 :: real) \<le> 1" "(1 / 2 ^ 44 :: real) \<le> 1" "(1 / 2 ^ 15 :: real) \<le> 1"
    by simp_all
  have yc: "10 \<le> 50 * c" "50 * c \<le> 11"
    by (simp_all add: c_def)
  then have "\<bar>50 * c\<bar> < 2 powi (3 + 1)"
    by simp
  then have "\<bar>p - 50 * c\<bar> \<le> 2 powi (3 - int 53)"
    unfolding p_def to_double_def by (rule round_binary_error) simp
  with yc e(1) small(1) have p: "9 \<le> p" "p \<le> 12"
    by linarith+
  then have d: "988 \<le> d" "d \<le> 991"
    by (simp_all add: d_def)
  then have "\<bar>d\<bar> < 2 powi (9 + 1)"
    by simp
  then have "\<bar>s - d\<bar> \<le> 2 powi (9 - int 53)"
    unfolding s_def to_double_def by (rule round_binary_error) simp
  with d e(2) small(2) have s: "987 \<le> s" "s \<le> 992"
    by linarith+
  then have "\<bar>s\<bar> < 2 powi (9 + 1)"
    by simp
  then have "\<bar>t - s\<bar> \<le> 2 powi (9 - int 24)"
    unfolding t_def to_float_def by (rule round_binary_error) simp
  with s e(3) small(3) have "10 \<le> t"
    by linarith
  then have "10 \<le> to_float (to_double (1000 - to_double (50 * to_float 0.2)))"
    by (simp only: t_def s_def d_def p_def c_def float_fifth)
  then show ?thesis
    by (rule scroll_callback_above)
qed

text \<open>
  A zoom-in request of \<open>2\<^sup>-\<^sup>1\<^sup>9\<close> at the ceiling: the step is less than half the spacing of
  the floats between 8 and 16, and the distance stays 10.
\<close>

lemma scroll_absorbed: "scroll_callback 10 (1 / 524288) = 10"
proof -
  define c :: real where "c = 13421773 / 67108864"
  define p where "p = to_double (1 / 524288 * c)"
  define d where "d = 10 - p"
  define s where "s = to_double d"
  define t where "t = to_float s"
  have e: "2 powi (- 22 - int 53) = (1 / 2 ^ 75 :: real)" "2 powi (3 - int 53) = (1 / 2 ^ 50 :: real)"
    "2 powi (3 - int 24 + 1) = (1 / 2 ^ 20 :: real)"
    by (simp_all add: power_int_minus_divide)
  have small: "(1 / 2 ^ 75 :: real) \<le> 1 / 2 ^ 30" "(1 / 2 ^ 50 :: real) \<le> 1 / 2 ^ 30"
    by simp_all
  have yc: "0 \<le> 1 / 524288 * c" "1 / 524288 * c \<le> 4 / 10 ^ 7"
    by (simp_all add: c_def)
  then have "\<bar>1 / 524288 * c\<bar> < 2 powi (- 22 + 1)"
    by (simp add: power_int_minus_divide)
  then have "\<bar>p - 1 / 524288 * c\<bar> \<le> 2 powi (- 22 - int 53)"
    unfolding p_def to_double_def by (rule round_binary_error) simp
  moreover have "0 \<le> p"
    unfolding p_def to_double_def using yc(1) by (rule round_binary_nonneg)
  ultimately have p: "0 \<le> p" "p \<le> 4 / 10 ^ 7 + 1 / 2 ^ 30"
    using yc(2) e(1) small(1) by linarith+
  then have d: "10 - 4 / 10 ^ 7 - 1 / 2 ^ 30 \<le> d" "d \<le> 10"
    by (simp_all add: d_def)
  then have "\<bar>d\<bar> < 2 powi (3 + 1)"
    by simp
  then have "\<bar>s - d\<bar> \<le> 2 powi (3 - int 53)"
    unfolding s_def to_double_def by (rule round_binary_error) simp
  with d e(2) small(2) have s: "10 - 4 / 10 ^ 7 - 2 / 2 ^ 30 \<le> s" "s \<le> 10 + 1 / 2 ^ 30"
    by linarith+
  have "t = of_int 10485760 * 2 powi (3 - int 24 + 1)"
    unfolding t_def to_float_def
  proof (rule round_binary_near)
    show "2 powi 3 \<le> \<bar>s\<bar>" "\<bar>s\<bar> < 2 powi (3 + 1)" "- 126 \<le> (3::int)"
      using s by simp_all
    define x where "x = s * 2 ^ 20 - 10485760"
    have eq: "s / (1 / 2 ^ 20) - of_int 10485760 = x"
      by (simp add: x_def)
    have "- (1 / 2) < x" "x < 1 / 2"
      using s by (simp_all add: x_def)
    then show "\<bar>s / 2 powi (3 - int 24 + 1) - of_int 10485760\<bar> < 1 / 2"
      unfolding e(3) eq abs_less_iff by linarith
  qed
  then have "t = 10"
    by (simp add: e(3))
  then have "to_float (to_double (10 - to_double (1 / 524288 * to_float 0.2))) = 10"
    by (simp only: t_def s_def d_def p_def c_def float_fifth)
  then show ?thesis
    by (simp add: scroll_callback_def Let_def)
qed

lemma foldl_fixed: "f z y = z \<Longrightarrow> foldl f z (replicate n y) = z"
  by (induction n) simp_all

text \<open>
  C8, as the specification states it, fails in three ways. An offset of -50 is a zoom-out
  request: it raises the distance from the initial 3 to the ceiling 10. Not every
  starting value reaches the floor: from 1000 an offset of 50 leaves 10. And offsets that
  sum to 50 need not lower the distance at all: at 10 a request of \<open>1 / 524288\<close> is lost
  in the rounding to \<^verbatim>\<open>float\<close>, so that 26214400 of them, which sum to 50, leave 10.
\<close>

theorem scroll_offsets_counterexample:
  "sum_list [- 50 :: real] = - 50 \<and> scroll_events 3 [- 50] = 10
   \<and> sum_list [50 :: real] = 50 \<and> scroll_events 1000 [50] = 10
   \<and> sum_list (replicate 26214400 (1 / 524288 :: real)) = 50
   \<and> scroll_events 10 (replicate 26214400 (1 / 524288)) = 10"
  using scroll_out_from_initial scroll_in_from_far foldl_fixed [of scroll_callback 10 "1 / 524288" 26214400, OF scroll_absorbed]
  by (simp add: scroll_events_def sum_list_replicate)

section \<open>Face normals\<close>

lemma face_normals_length [simp]: "length (face_normals ops vs i ns) = length ns"
proof (induction ops vs i ns rule: face_normals.induct)
  case (1 ops vs i ns)
  then show ?case
    by (simp add: face_normals.simps [of ops vs i ns] Let_def)
qed

lemma group_shift:
  fixes i k :: nat
  shows "i + 3 \<le> k \<Longrightarrow> i + 3 + 3 * ((k - (i + 3)) div 3) = i + 3 * ((k - i) div 3)"
proof -
  assume "i + 3 \<le> k"
  then obtain m where k: "k = i + 3 + m"
    by (auto simp: le_iff_add)
  have "(3 + m) div 3 = m div 3 + 1"
    by simp
  then show ?thesis
    unfolding k by (simp add: add.commute)
qed

text \<open>The loop from \<open>i\<close> on: the groups are \<open>i, i + 3, i + 6, \<dots>\<close>.\<close>

lemma face_normals_nth:
  "length ns = length vs \<Longrightarrow> k < length vs \<Longrightarrow>
   face_normals ops vs i ns ! k =
     (if i \<le> k \<and> i + 3 * ((k - i) div 3) + 2 < length vs
      then vplus ops (ns ! k) (face_normal ops vs (i + 3 * ((k - i) div 3)))
      else ns ! k)"
proof (induction ops vs i ns rule: face_normals.induct)
  case (1 ops vs i ns)
  show ?case
  proof (cases "i < length vs")
    case False
    then show ?thesis
      using "1.prems" by (simp add: face_normals.simps [of ops vs i ns])
  next
    case True
    let ?fn = "face_normal ops vs i"
    let ?ns' = "if i + 2 < length vs
                then ns[i := vplus ops (ns ! i) ?fn, i + 1 := vplus ops (ns ! (i + 1)) ?fn,
                        i + 2 := vplus ops (ns ! (i + 2)) ?fn]
                else ns"
    have unfold: "face_normals ops vs i ns = face_normals ops vs (i + 3) ?ns'"
      using True by (simp add: face_normals.simps [of ops vs i ns] Let_def face_normal_def)
    have IH: "face_normals ops vs (i + 3) ?ns' ! k =
                (if i + 3 \<le> k \<and> i + 3 + 3 * ((k - (i + 3)) div 3) + 2 < length vs
                 then vplus ops (?ns' ! k)
                        (face_normal ops vs (i + 3 + 3 * ((k - (i + 3)) div 3)))
                 else ?ns' ! k)"
    proof -
      have "length (if i + 2 < length vs
                    then let v0 = vs ! i; v1 = vs ! (i + 1); v2 = vs ! (i + 2);
                             edge1 = vminus ops v1 v0; edge2 = vminus ops v2 v0;
                             faceNormal = cross ops edge1 edge2
                         in ns[i := vplus ops (ns ! i) faceNormal,
                               i + 1 := vplus ops (ns ! (i + 1)) faceNormal,
                               i + 2 := vplus ops (ns ! (i + 2)) faceNormal]
                    else ns) = length vs"
        using "1.prems" by (simp add: Let_def)
      from "1.IH" [OF True this "1.prems"(2)] show ?thesis
        by (simp only: Let_def face_normal_def)
    qed
    consider (before) "k < i" | (here) "i \<le> k" "k < i + 3" | (after) "i + 3 \<le> k"
      by linarith
    then show ?thesis
    proof cases
      case before
      then show ?thesis
        unfolding unfold IH using "1.prems" by simp
    next
      case here
      then have g: "(k - i) div 3 = 0"
        by simp
      have "k = i \<or> k = i + 1 \<or> k = i + 2"
        using here by linarith
      then show ?thesis
        unfolding unfold IH using here "1.prems" g by auto
    next
      case after
      have g: "i + 3 + 3 * ((k - (i + 3)) div 3) = i + 3 * ((k - i) div 3)"
        using after by (rule group_shift)
      show ?thesis
        unfolding unfold IH g using after "1.prems" by simp
    qed
  qed
qed

text \<open>
  C2. The loop of \<^verbatim>\<open>calculateSmoothNormals\<close> that accumulates face normals works on the
  groups of positions \<open>3g, 3g + 1, 3g + 2\<close>. Vertex \<open>k\<close> lies in the group that starts at
  \<open>3 * (k div 3)\<close>. When the group is complete, the cross product of \<open>v1 - v0\<close> and
  \<open>v2 - v0\<close> of that group, not normalized, is added to the accumulator of \<open>k\<close>; when
  fewer than 3 positions remain, the accumulator of \<open>k\<close> is left as it was, which is
  zero in the array that \<^verbatim>\<open>main\<close> passes.
\<close>

theorem face_normals_by_group:
  assumes "length ns = length vs" and "k < length vs"
  shows "face_normals ops vs 0 ns ! k =
           (if 3 * (k div 3) + 2 < length vs
            then vplus ops (ns ! k)
                   (cross ops (vminus ops (vs ! (3 * (k div 3) + 1)) (vs ! (3 * (k div 3))))
                              (vminus ops (vs ! (3 * (k div 3) + 2)) (vs ! (3 * (k div 3)))))
            else ns ! k)
         \<and> face_normals ops vs 0 (replicate (length vs) (vec3_zero ops)) ! k =
           (if 3 * (k div 3) + 2 < length vs
            then vplus ops (vec3_zero ops)
                   (cross ops (vminus ops (vs ! (3 * (k div 3) + 1)) (vs ! (3 * (k div 3))))
                              (vminus ops (vs ! (3 * (k div 3) + 2)) (vs ! (3 * (k div 3)))))
            else vec3_zero ops)"
proof -
  have "length (replicate (length vs) (vec3_zero ops)) = length vs"
    by simp
  from face_normals_nth [OF assms, of ops 0] face_normals_nth [OF this assms(2), of ops 0]
  show ?thesis
    using assms(2) by (simp add: face_normal_def)
qed

theorem face_normals_by_group_witness:
  "length (replicate 4 (Vec3 0 0 0 :: real vec3))
     = length [Vec3 0 0 0, Vec3 1 0 0, Vec3 0 1 0, Vec3 5 5 (5::real)]
   \<and> 1 < length [Vec3 0 0 0, Vec3 1 0 0, Vec3 0 1 0, Vec3 5 5 (5::real)]
   \<and> 3 < length [Vec3 0 0 0, Vec3 1 0 0, Vec3 0 1 0, Vec3 5 5 (5::real)]
   \<and> face_normals real_glm [Vec3 0 0 0, Vec3 1 0 0, Vec3 0 1 0, Vec3 5 5 5] 0
        (replicate 4 (Vec3 0 0 0)) ! 1 = Vec3 0 0 1
   \<and> face_normals real_glm [Vec3 0 0 0, Vec3 1 0 0, Vec3 0 1 0, Vec3 5 5 5] 0
        (replicate 4 (Vec3 0 0 0)) ! 3 = Vec3 0 0 0"
  using face_normals_by_group [of "replicate 4 (Vec3 0 0 0)"
          "[Vec3 0 0 0, Vec3 1 0 0, Vec3 0 1 0, Vec3 5 5 5]" 1 real_glm]
        face_normals_by_group [of "replicate 4 (Vec3 0 0 0)"
          "[Vec3 0 0 0, Vec3 1 0 0, Vec3 0 1 0, Vec3 5 5 5]" 3 real_glm]
  by (simp add: real_glm_def)

section \<open>The flattener\<close>

lemma flatten_step_eq:
  "flatten_step ops st out i =
     (if valid_corner st i
      then \<lparr>out_vertices = out_vertices out @ [resolve (temp_vertices st) (vertexIndices st ! i)],
            out_normals = out_normals out @ normal_emit st i,
            out_uvs = out_uvs out @ uv_emit ops st i\<rparr>
      else out)"
  by (simp add: flatten_step_def valid_corner_def uv_emit_def normal_emit_def Let_def)

lemma flatten_steps:
  "foldl (flatten_step ops st) out is =
     \<lparr>out_vertices = out_vertices out
         @ map (\<lambda>i. resolve (temp_vertices st) (vertexIndices st ! i)) (filter (valid_corner st) is),
      out_normals = out_normals out @ concat (map (normal_emit st) (filter (valid_corner st) is)),
      out_uvs = out_uvs out @ concat (map (uv_emit ops st) (filter (valid_corner st) is))\<rparr>"
proof (induction "is" arbitrary: out)
  case Nil
  show ?case by simp
next
  case (Cons i "is")
  have "foldl (flatten_step ops st) out (i # is)
          = foldl (flatten_step ops st) (flatten_step ops st out i) is"
    by simp
  also note Cons.IH [of "flatten_step ops st out i"]
  finally show ?case
    by (simp add: flatten_step_eq [of ops st out i])
qed

lemma in_range_nonempty: "in_range w pool \<Longrightarrow> pool \<noteq> []"
  by (auto simp: in_range_def word_less_nat_alt)

lemma uv_emit_length: "length (uv_emit ops st i) = (if temp_uvs st = [] then 0 else 1)"
  by (auto simp: uv_emit_def dest: in_range_nonempty)

lemma concat_uv_emit_length:
  "length (concat (map (uv_emit ops st) is)) = (if temp_uvs st = [] then 0 else length is)"
  by (induction "is") (simp_all add: uv_emit_length)

lemma flatten_uvs_length:
  "length (out_uvs (flatten ops st empty_buffers)) =
     (if temp_uvs st = [] then 0 else length (out_vertices (flatten ops st empty_buffers)))"
  by (simp add: flatten_def flatten_steps concat_uv_emit_length empty_buffers_def)

lemma filter_nth_upt:
  "map (\<lambda>i. f (xs ! i)) (filter (\<lambda>i. P (xs ! i)) [0..<length xs]) = map f (filter P xs)"
proof -
  have "map f (filter P (map ((!) xs) [0..<length xs])) = map f (filter P xs)"
    by (simp only: map_nth)
  then show ?thesis by (simp add: filter_map comp_def)
qed

lemma foldl_skip: "(\<And>a x. x \<in> set xs \<Longrightarrow> \<not> P x \<Longrightarrow> f a x = a) \<Longrightarrow> foldl f a xs = foldl f a (filter P xs)"
  by (induction xs arbitrary: a) auto

lemma assign_all_length [simp]: "length (foldl (\<lambda>ns idx. ns[idx := a]) ns idxs) = length ns"
  by (induction idxs arbitrary: ns) simp_all

lemma average_entry_length [simp]: "length (average_entry ops ns e) = length ns"
  by (simp add: average_entry_def Let_def)

lemma calculateSmoothNormals_length [simp]:
  "length (calculateSmoothNormals ops vs ns) = length ns"
proof -
  have "\<And>ns. length (foldl (average_entry ops) ns m) = length ns" for m
    by (induction m) simp_all
  then show ?thesis by (simp add: calculateSmoothNormals_def)
qed

lemma loadOBJ_Some:
  "loadOBJ ops file out = Inr (True, out') \<Longrightarrow>
     \<exists>lines st. file = Some lines \<and> parse_lines ops init_state lines = Inr st \<and> out' = flatten ops st out"
  by (auto simp: loadOBJ_def split: option.splits sum.splits)

text \<open>
  C3. Whenever the load stage of \<^verbatim>\<open>main\<close> completes (the file opens and no exception
  leaves the parser), the normal array has the length of the position array, whether the
  normals come from the file or from \<^verbatim>\<open>calculateSmoothNormals\<close>, and the UV array is empty
  or has that length too.
\<close>

theorem flat_array_lengths:
  assumes "main_load ops file = Inr (Some sc)"
  shows "length (normals sc) = length (vertices sc)
         \<and> (length (uvs sc) = 0 \<or> length (uvs sc) = length (vertices sc))"
proof -
  from assms obtain out where load: "loadOBJ ops file empty_buffers = Inr (True, out)"
    and sc: "sc = \<lparr>vertices = out_vertices out,
                   normals = (if out_normals out = [] \<or> length (out_normals out) \<noteq> length (out_vertices out)
                              then calculateSmoothNormals ops (out_vertices out)
                                     (replicate (length (out_vertices out)) (vec3_zero ops))
                              else out_normals out),
                   uvs = out_uvs out, center = model_center ops (out_vertices out)\<rparr>"
    by (auto simp: main_load_def Let_def split: sum.splits if_splits)
  from loadOBJ_Some [OF load] obtain st where out: "out = flatten ops st empty_buffers"
    by blast
  have n: "length (normals sc) = length (vertices sc)"
    by (simp add: sc)
  have u: "length (uvs sc) = 0 \<or> length (uvs sc) = length (vertices sc)"
    using flatten_uvs_length [of ops st] by (simp add: sc out split: if_splits)
  from n u show ?thesis by simp
qed

lemma not_in_range_iff: "\<not> in_range w pool \<longleftrightarrow> (w \<le> 0 \<or> length pool < unat w)"
  by (auto simp: in_range_def word_less_nat_alt word_le_nat_alt)

lemma flatten_step_skip: "\<not> in_range (vertexIndices st ! i) (temp_vertices st) \<Longrightarrow> flatten_step ops st out i = out"
  by (simp add: flatten_step_def)

lemma flatten_out_vertices:
  "out_vertices (flatten ops st out) = out_vertices out
     @ map (resolve (temp_vertices st)) (filter (\<lambda>w. in_range w (temp_vertices st)) (vertexIndices st))"
proof -
  have v: "valid_corner st = (\<lambda>i. in_range (vertexIndices st ! i) (temp_vertices st))"
    by (rule ext) (simp add: valid_corner_def)
  show ?thesis
    using filter_nth_upt [of "resolve (temp_vertices st)" "vertexIndices st"
                             "\<lambda>w. in_range w (temp_vertices st)"]
    by (simp add: flatten_def flatten_steps v)
qed

lemma stored_index_skipped:
  fixes k :: int
  assumes "- 2147483648 \<le> k" and "k \<le> 2147483647"
    and "(k \<le> 0 \<and> length pool < 2147483648) \<or> int (length pool) < k"
  shows "\<not> in_range (word_of_int k :: 32 word) pool"
proof -
  have u: "unat (word_of_int k :: 32 word) = nat (k mod 4294967296)"
    by (simp add: unat_eq_nat_uint uint_word_of_int take_bit_eq_mod)
  consider (zero) "k = 0" | (neg) "k < 0" "length pool < 2147483648" | (big) "0 < k" "int (length pool) < k"
    using assms(3) by linarith
  then show ?thesis
  proof cases
    case zero
    then show ?thesis by (simp add: in_range_def)
  next
    case neg
    have "k mod 4294967296 = (k + 4294967296) mod 4294967296"
      by simp
    also have "\<dots> = k + 4294967296"
      by (rule mod_pos_pos_trivial) (use neg(1) assms(1) in simp_all)
    finally have "k mod 4294967296 = k + 4294967296" .
    then have "length pool < nat (k mod 4294967296)"
      using neg(2) assms(1) by linarith
    then show ?thesis
      using u by (simp add: in_range_def)
  next
    case big
    have "k mod 4294967296 = k"
      using big(1) assms(2) by simp
    then have "length pool < nat (k mod 4294967296)"
      using big by linarith
    then show ?thesis
      using u by (simp add: in_range_def)
  qed
qed

text \<open>
  C4. The position index of a corner is the \<^verbatim>\<open>unsigned int\<close> in \<^verbatim>\<open>vertexIndices\<close>, so
  that "at most 0" is "equal to 0". A corner whose index is 0 or greater than the number
  of parsed positions makes the flattener's loop body do nothing, for whatever output came
  before. Hence the positions that the flattener appends are the resolved positions of
  the other corners, in order; the output is shorter than the index stream by exactly the
  number of skipped corners; and leaving the skipped corners out of the loop, every other
  corner keeping its own place in the three index streams, gives the same three output
  arrays. The last part relates the stored index to the number \<open>k\<close> written in the
  file: with fewer than \<open>2^31\<close> positions parsed, every \<open>k \<le> 0\<close> and every \<open>k\<close> above
  the number of positions is stored as an index that is skipped.
\<close>

theorem invalid_position_index_skipped:
  "out_vertices (flatten ops st out) = out_vertices out
     @ map (resolve (temp_vertices st))
         (filter (\<lambda>w. \<not> (w \<le> 0 \<or> length (temp_vertices st) < unat w)) (vertexIndices st))
   \<and> length (out_vertices (flatten ops st out))
       + length (filter (\<lambda>w. w \<le> 0 \<or> length (temp_vertices st) < unat w) (vertexIndices st))
     = length (out_vertices out) + length (vertexIndices st)
   \<and> flatten ops st out = foldl (flatten_step ops st) out
       (filter (\<lambda>i. \<not> (vertexIndices st ! i \<le> 0 \<or> length (temp_vertices st) < unat (vertexIndices st ! i)))
          [0..<length (vertexIndices st)])
   \<and> (\<forall>i out'. vertexIndices st ! i \<le> 0 \<or> length (temp_vertices st) < unat (vertexIndices st ! i)
         \<longrightarrow> flatten_step ops st out' i = out')
   \<and> (\<forall>k. - 2147483648 \<le> k \<and> k \<le> 2147483647 \<and> length (temp_vertices st) < 2147483648
          \<and> (k \<le> 0 \<or> int (length (temp_vertices st)) < k)
         \<longrightarrow> (word_of_int k :: 32 word) \<le> 0 \<or> length (temp_vertices st) < unat (word_of_int k :: 32 word))"
proof -
  let ?tv = "temp_vertices st" and ?vi = "vertexIndices st"
  have a: "out_vertices (flatten ops st out) = out_vertices out
     @ map (resolve ?tv) (filter (\<lambda>w. \<not> (w \<le> 0 \<or> length ?tv < unat w)) ?vi)"
    by (simp only: flatten_out_vertices not_in_range_iff [symmetric] not_not)
  have "length (filter (\<lambda>w. \<not> (w \<le> 0 \<or> length ?tv < unat w)) ?vi)
          + length (filter (\<lambda>w. w \<le> 0 \<or> length ?tv < unat w) ?vi) = length ?vi"
    using sum_length_filter_compl [of "\<lambda>w. w \<le> 0 \<or> length ?tv < unat w" ?vi] by simp
  then have b: "length (out_vertices (flatten ops st out))
       + length (filter (\<lambda>w. w \<le> 0 \<or> length ?tv < unat w) ?vi)
     = length (out_vertices out) + length ?vi"
    by (simp add: a)
  have d: "\<forall>i out'. ?vi ! i \<le> 0 \<or> length ?tv < unat (?vi ! i) \<longrightarrow> flatten_step ops st out' i = out'"
    using flatten_step_skip [of st _ ops] by (simp add: not_in_range_iff)
  have c: "flatten ops st out = foldl (flatten_step ops st) out
       (filter (\<lambda>i. \<not> (?vi ! i \<le> 0 \<or> length ?tv < unat (?vi ! i))) [0..<length ?vi])"
    unfolding flatten_def by (rule foldl_skip) (use d in auto)
  have e: "\<forall>k. - 2147483648 \<le> k \<and> k \<le> 2147483647 \<and> length ?tv < 2147483648
          \<and> (k \<le> 0 \<or> int (length ?tv) < k)
         \<longrightarrow> (word_of_int k :: 32 word) \<le> 0 \<or> length ?tv < unat (word_of_int k :: 32 word)"
    using stored_index_skipped [of _ ?tv] by (auto simp: not_in_range_iff)
  from a b c d e show ?thesis by blast
qed

section \<open>Smooth normals\<close>











lemma map_indices_simps [simp]:
  "map_indices [] = []"
  "map_indices ((k, idxs) # m) = idxs @ map_indices m"
  by (simp_all add: map_indices_def)

lemma keys_sorted_simps [simp]:
  "keys_sorted ops []"
  "keys_sorted ops ((k, idxs) # m) = ((\<forall>e \<in> set m. key_less ops k (fst e)) \<and> keys_sorted ops m)"
  by (simp_all add: keys_sorted_def)

lemma map_push_cases:
  "map_push ops key i ((k, idxs) # m) =
     (if key_less ops key k then (key, [i]) # (k, idxs) # m
      else if key_less ops k key then (k, idxs) # map_push ops key i m
      else (k, idxs @ [i]) # m)"
  by simp
















lemma entry_distinct:
  "distinct (map_indices m) \<Longrightarrow> (k, idxs) \<in> set m \<Longrightarrow> distinct idxs"
proof (induction m)
  case Nil
  then show ?case by simp
next
  case (Cons e m)
  obtain k' idxs' where e: "e = (k', idxs')" by (cases e)
  show ?case
    using Cons by (auto simp: e)
qed












section \<open>The parser and the corners of a file\<close>

lemma process_corner_eq:
  "process_corner st vertex =
     (case parse_corner vertex of Inl e \<Rightarrow> Inl e | Inr c \<Rightarrow> Inr (push_corner st c))"
  by (simp add: process_corner_def parse_corner_def push_corner_def index_entry_def Let_def
           split: prod.splits sum.splits option.splits)

lemma process_corners_eq:
  "process_corners st vs =
     (case parse_corners vs of Inl e \<Rightarrow> Inl e | Inr cs \<Rightarrow> Inr (foldl push_corner st cs))"
  by (induction vs arbitrary: st) (simp_all add: process_corner_eq split: sum.splits)

lemma push_corners_streams:
  "vertexIndices (foldl push_corner st cs) = vertexIndices st @ map (\<lambda>c. word_of_int (fst c)) cs
   \<and> uvIndices (foldl push_corner st cs) = uvIndices st @ concat (map (\<lambda>c. index_entry (fst (snd c))) cs)
   \<and> normalIndices (foldl push_corner st cs)
       = normalIndices st @ concat (map (\<lambda>c. index_entry (snd (snd c))) cs)
   \<and> temp_vertices (foldl push_corner st cs) = temp_vertices st
   \<and> temp_uvs (foldl push_corner st cs) = temp_uvs st
   \<and> temp_normals (foldl push_corner st cs) = temp_normals st"
  by (induction cs arbitrary: st) (simp_all add: push_corner_def split: prod.splits)

lemma process_line_eq:
  "process_line ops st line =
     (case line_corners line of
        Inl e \<Rightarrow> Inl e
      | Inr cs \<Rightarrow>
          Inr (if fst (extract_word line) = ''v''
               then st\<lparr>temp_vertices := temp_vertices st @ [read_vec3 ops (snd (extract_word line))]\<rparr>
               else if fst (extract_word line) = ''vt''
               then st\<lparr>temp_uvs := temp_uvs st @ [read_vec2 ops (snd (extract_word line))]\<rparr>
               else if fst (extract_word line) = ''vn''
               then st\<lparr>temp_normals := temp_normals st @ [read_vec3 ops (snd (extract_word line))]\<rparr>
               else foldl push_corner st cs))"
  by (simp add: process_line_def line_corners_def process_corners_eq
           split: prod.splits sum.splits)

lemma process_line_streams:
  assumes "process_line ops st line = Inr st'"
  shows "\<exists>cs. line_corners line = Inr cs
           \<and> vertexIndices st' = vertexIndices st @ map (\<lambda>c. word_of_int (fst c)) cs
           \<and> uvIndices st' = uvIndices st @ concat (map (\<lambda>c. index_entry (fst (snd c))) cs)
           \<and> normalIndices st' = normalIndices st @ concat (map (\<lambda>c. index_entry (snd (snd c))) cs)"
  using assms unfolding process_line_eq
  by (auto simp: push_corners_streams line_corners_def split: sum.splits prod.splits if_splits)

lemma process_line_error:
  "process_line ops st line = Inl e \<longleftrightarrow> line_corners line = Inl e"
  unfolding process_line_eq by (simp split: sum.splits)

lemma parse_lines_error:
  "parse_lines ops st lines = Inl e \<longleftrightarrow> file_corners lines = Inl e"
proof (induction lines arbitrary: st)
  case Nil
  show ?case by simp
next
  case (Cons l ls)
  show ?case
  proof (cases "process_line ops st l")
    case (Inl e')
    then show ?thesis using process_line_error [of ops st l e'] by simp
  next
    case (Inr st')
    then obtain cs where "line_corners l = Inr cs"
      using process_line_streams by blast
    then show ?thesis using Inr Cons.IH [of st'] by (simp split: sum.splits)
  qed
qed

lemma parse_lines_streams:
  assumes "parse_lines ops st lines = Inr st'"
  shows "\<exists>cs. file_corners lines = Inr cs
           \<and> vertexIndices st' = vertexIndices st @ map (\<lambda>c. word_of_int (fst c)) cs
           \<and> uvIndices st' = uvIndices st @ concat (map (\<lambda>c. index_entry (fst (snd c))) cs)
           \<and> normalIndices st' = normalIndices st @ concat (map (\<lambda>c. index_entry (snd (snd c))) cs)"
  using assms
proof (induction lines arbitrary: st)
  case Nil
  then show ?case by simp
next
  case (Cons l ls)
  from Cons.prems obtain st1 where l: "process_line ops st l = Inr st1"
    and ls: "parse_lines ops st1 ls = Inr st'"
    by (auto split: sum.splits)
  from process_line_streams [OF l] obtain cs where cs: "line_corners l = Inr cs"
    "vertexIndices st1 = vertexIndices st @ map (\<lambda>c. word_of_int (fst c)) cs"
    "uvIndices st1 = uvIndices st @ concat (map (\<lambda>c. index_entry (fst (snd c))) cs)"
    "normalIndices st1 = normalIndices st @ concat (map (\<lambda>c. index_entry (snd (snd c))) cs)"
    by blast
  from Cons.IH [OF ls] obtain ds where ds: "file_corners ls = Inr ds"
    "vertexIndices st' = vertexIndices st1 @ map (\<lambda>c. word_of_int (fst c)) ds"
    "uvIndices st' = uvIndices st1 @ concat (map (\<lambda>c. index_entry (fst (snd c))) ds)"
    "normalIndices st' = normalIndices st1 @ concat (map (\<lambda>c. index_entry (snd (snd c))) ds)"
    by blast
  show ?case using cs ds by simp
qed

lemma line_corners_alt:
  "line_corners line =
     (if fst (extract_word line) = ''f''
      then parse_corners (face_vertices (snd (extract_word line))) else Inr [])"
  by (simp add: line_corners_def case_prod_beta)

lemma no_face_line: "fst (extract_word l) \<noteq> ''f'' \<Longrightarrow> line_corners l = Inr []"
  by (simp add: line_corners_alt)

lemma no_face_file: "\<forall>l \<in> set lines. fst (extract_word l) \<noteq> ''f'' \<Longrightarrow> file_corners lines = Inr []"
  by (induction lines) (simp_all add: no_face_line)

lemma parse_lines_cases:
  "(\<exists>e. parse_lines ops st lines = Inl e \<and> file_corners lines = Inl e)
   \<or> (\<exists>st' cs. parse_lines ops st lines = Inr st' \<and> file_corners lines = Inr cs)"
proof (cases "parse_lines ops st lines")
  case (Inl e)
  then show ?thesis using parse_lines_error [of ops st lines e] by simp
next
  case (Inr st')
  then show ?thesis using parse_lines_streams [of ops st lines st'] by blast
qed

lemma no_face_parse:
  assumes "\<forall>l \<in> set lines. fst (extract_word l) \<noteq> ''f''"
  shows "\<exists>st'. parse_lines ops st lines = Inr st' \<and> vertexIndices st' = vertexIndices st"
proof -
  have fc: "file_corners lines = Inr []"
    using assms by (rule no_face_file)
  with parse_lines_cases [of ops st lines] obtain st' where p: "parse_lines ops st lines = Inr st'"
    by auto
  from parse_lines_streams [OF p] fc have "vertexIndices st' = vertexIndices st"
    by auto
  with p show ?thesis by blast
qed

lemma flatten_nothing_valid:
  assumes "\<forall>w \<in> set (vertexIndices st). \<not> in_range w (temp_vertices st)"
  shows "flatten ops st out = out"
proof -
  have "filter (valid_corner st) [0..<length (vertexIndices st)] = []"
    using assms by (auto simp: filter_empty_conv valid_corner_def)
  then show ?thesis
    by (simp add: flatten_def flatten_steps)
qed

lemma flatten_no_vertices:
  assumes "out_vertices (flatten ops st empty_buffers) = []"
  shows "flatten ops st empty_buffers = empty_buffers"
proof -
  have "filter (valid_corner st) [0..<length (vertexIndices st)] = []"
    using assms by (simp add: flatten_def flatten_steps empty_buffers_def)
  then show ?thesis
    by (simp add: flatten_def flatten_steps empty_buffers_def)
qed

lemma main_load_empty:
  assumes "loadOBJ ops (Some lines) empty_buffers = Inr (True, empty_buffers)"
  shows "main_load ops (Some lines) =
           Inr (Some \<lparr>vertices = [], normals = [], uvs = [],
                      center = vdiv_size ops (vec3_zero ops) 0\<rparr>)"
proof -
  have "calculateSmoothNormals ops [] [] = []"
    using calculateSmoothNormals_length [of ops "[]" "[]"] by (metis length_0_conv)
  then show ?thesis
    using assms by (simp add: main_load_def empty_buffers_def model_center_def)
qed

text \<open>
  C10. A file that opens and has no face record, or whose corners all have a position
  index that is skipped, makes \<^verbatim>\<open>loadOBJ\<close> return true with the three output arrays
  empty. Whenever \<^verbatim>\<open>loadOBJ\<close> returns with no output position, it has returned true and
  all three arrays are empty, and \<^verbatim>\<open>main\<close> goes on to divide the centre accumulator,
  still zero, by the vertex count 0: nothing guards the division.
\<close>

theorem empty_mesh_divides_by_zero:
  "((\<forall>l \<in> set lines. fst (extract_word l) \<noteq> ''f'')
      \<longrightarrow> loadOBJ ops (Some lines) empty_buffers = Inr (True, empty_buffers))
   \<and> (\<forall>st. parse_lines ops init_state lines = Inr st
            \<and> (\<forall>w \<in> set (vertexIndices st). w \<le> 0 \<or> length (temp_vertices st) < unat w)
      \<longrightarrow> loadOBJ ops (Some lines) empty_buffers = Inr (True, empty_buffers))
   \<and> (\<forall>ok out. loadOBJ ops (Some lines) empty_buffers = Inr (ok, out) \<and> out_vertices out = []
      \<longrightarrow> ok \<and> out = empty_buffers
          \<and> main_load ops (Some lines) =
              Inr (Some \<lparr>vertices = [], normals = [], uvs = [],
                         center = vdiv_size ops (vec3_zero ops) 0\<rparr>))"
proof (intro conjI allI impI)
  assume "\<forall>l \<in> set lines. fst (extract_word l) \<noteq> ''f''"
  from no_face_parse [OF this, of ops init_state]
  obtain st where p: "parse_lines ops init_state lines = Inr st" and v: "vertexIndices st = []"
    by (auto simp: init_state_def)
  have "flatten ops st empty_buffers = empty_buffers"
    by (rule flatten_nothing_valid) (simp add: v)
  then show "loadOBJ ops (Some lines) empty_buffers = Inr (True, empty_buffers)"
    by (simp add: loadOBJ_def p)
next
  fix st
  assume a: "parse_lines ops init_state lines = Inr st
             \<and> (\<forall>w \<in> set (vertexIndices st). w \<le> 0 \<or> length (temp_vertices st) < unat w)"
  then have "flatten ops st empty_buffers = empty_buffers"
    by (intro flatten_nothing_valid) (simp add: not_in_range_iff)
  then show "loadOBJ ops (Some lines) empty_buffers = Inr (True, empty_buffers)"
    using a by (simp add: loadOBJ_def)
next
  fix ok out
  assume a: "loadOBJ ops (Some lines) empty_buffers = Inr (ok, out) \<and> out_vertices out = []"
  then obtain st where ok: "ok" and out: "out = flatten ops st empty_buffers"
    by (auto simp: loadOBJ_def split: sum.splits)
  have e: "out = empty_buffers"
    using a out flatten_no_vertices [of ops st] by simp
  show "ok" by (rule ok)
  show "out = empty_buffers" by (rule e)
  show "main_load ops (Some lines) =
          Inr (Some \<lparr>vertices = [], normals = [], uvs = [],
                     center = vdiv_size ops (vec3_zero ops) 0\<rparr>)"
    using a ok e by (intro main_load_empty) simp
qed

lemma parse_corners_error:
  "vertex \<in> set vs \<Longrightarrow> parse_corner vertex = Inl e \<Longrightarrow> \<exists>e'. parse_corners vs = Inl e'"
  by (induction vs) (auto split: sum.splits)

lemma file_corners_error:
  "line \<in> set lines \<Longrightarrow> line_corners line = Inl e \<Longrightarrow> \<exists>e'. file_corners lines = Inl e'"
  by (induction lines) (auto split: sum.splits)

lemma process_corner_error: "process_corner st vertex = Inl e \<longleftrightarrow> parse_corner vertex = Inl e"
  by (simp add: process_corner_eq split: sum.splits)

lemma face_corner_error_aborts:
  assumes "line \<in> set lines" and "fst (extract_word line) = ''f''"
    and "vertex \<in> set (face_vertices (snd (extract_word line)))"
    and "process_corner st vertex = Inl e"
  shows "\<exists>e'. loadOBJ ops (Some lines) out = Inl e'"
proof -
  have "parse_corner vertex = Inl e"
    using assms(4) by (simp add: process_corner_error)
  with assms(3) obtain e1 where "parse_corners (face_vertices (snd (extract_word line))) = Inl e1"
    using parse_corners_error by blast
  then have "line_corners line = Inl e1"
    using assms(2) by (simp add: line_corners_alt)
  with assms(1) obtain e2 where "file_corners lines = Inl e2"
    using file_corners_error by blast
  then have "parse_lines ops init_state lines = Inl e2"
    by (simp add: parse_lines_error)
  then show ?thesis
    by (simp add: loadOBJ_def)
qed

lemma position_field_error:
  "stoi (takeWhile (\<lambda>c. c \<noteq> CHR ''/'') vertex) = Inl e \<Longrightarrow> process_corner st vertex = Inl e"
  by (cases vertex) (auto simp: process_corner_def getline_slash_def)

lemma texture_field_error:
  "getline_slash vertex = Some (t1, r1) \<Longrightarrow> stoi t1 = Inr p \<Longrightarrow>
   getline_slash r1 = Some (t2, r2) \<Longrightarrow> t2 \<noteq> [] \<Longrightarrow> stoi t2 = Inl e \<Longrightarrow>
   process_corner st vertex = Inl e"
  by (simp add: process_corner_def optional_index_def)

lemma normal_field_error:
  "getline_slash vertex = Some (t1, r1) \<Longrightarrow> stoi t1 = Inr p \<Longrightarrow>
   getline_slash r1 = Some (t2, r2) \<Longrightarrow> t2 = [] \<or> stoi t2 = Inr t \<Longrightarrow>
   getline_slash r2 = Some (t3, r3) \<Longrightarrow> t3 \<noteq> [] \<Longrightarrow> stoi t3 = Inl e \<Longrightarrow>
   process_corner st vertex = Inl e"
  by (auto simp: process_corner_def optional_index_def)

lemma record_line_never_raises:
  "fst (extract_word line) = ''v'' \<or> fst (extract_word line) = ''vt'' \<or> fst (extract_word line) = ''vn''
   \<Longrightarrow> \<exists>st'. process_line ops st line = Inr st'"
  by (auto simp: process_line_def split: prod.splits)

lemma no_face_loads:
  assumes "\<forall>l \<in> set lines. fst (extract_word l) \<noteq> ''f''"
  shows "\<exists>out'. loadOBJ ops (Some lines) out = Inr (True, out')"
  using no_face_parse [OF assms, of ops init_state] by (auto simp: loadOBJ_def)

section \<open>Quad faces\<close>

lemma extract_word_token:
  assumes "is_blank b" and "is_word w" and "r = [] \<or> isspace (hd r)"
  shows "extract_word (b @ w @ r) = (w, r)"
proof -
  from assms(2) obtain x xs where w: "w = x # xs" and x: "\<not> isspace x"
    by (cases w) (auto simp: is_word_def)
  have b: "dropWhile isspace (b @ w @ r) = w @ r"
    using assms(1) x by (simp add: is_blank_def list_all_iff dropWhile_append2 w)
  have nw: "\<And>c. c \<in> set w \<Longrightarrow> \<not> isspace c"
    using assms(2) by (simp add: is_word_def list_all_iff)
  have t: "takeWhile (\<lambda>c. \<not> isspace c) (w @ r) = w"
    using nw assms(3) by (cases r) (simp_all add: takeWhile_append2)
  have d: "dropWhile (\<lambda>c. \<not> isspace c) (w @ r) = r"
    using nw assms(3) by (cases r) (simp_all add: dropWhile_append2)
  show ?thesis
    by (simp add: extract_word_def b t d)
qed

lemma blank_head: "is_blank b \<Longrightarrow> b \<noteq> [] \<Longrightarrow> isspace (hd (b @ r))"
  by (cases b) (simp_all add: is_blank_def)

lemma blank_rest: "is_blank b \<Longrightarrow> b = [] \<or> isspace (hd b)"
  by (cases b) (simp_all add: is_blank_def)

lemma quad_line_words:
  assumes "is_word a" "is_word b" "is_word c" "is_word d"
    and "is_blank b0" "is_blank b1" "b1 \<noteq> []" "is_blank b2" "b2 \<noteq> []"
        "is_blank b3" "b3 \<noteq> []" "is_blank b4" "b4 \<noteq> []" "is_blank b5"
  shows "extract_word (b0 @ ''f'' @ b1 @ a @ b2 @ b @ b3 @ c @ b4 @ d @ b5)
           = (''f'', b1 @ a @ b2 @ b @ b3 @ c @ b4 @ d @ b5)"
    and "face_vertices (b1 @ a @ b2 @ b @ b3 @ c @ b4 @ d @ b5) = [a, b, c, a, c, d]"
proof -
  have f: "is_word ''f''"
    by (simp add: is_word_def isspace_def)
  show "extract_word (b0 @ ''f'' @ b1 @ a @ b2 @ b @ b3 @ c @ b4 @ d @ b5)
           = (''f'', b1 @ a @ b2 @ b @ b3 @ c @ b4 @ d @ b5)"
    using extract_word_token [OF assms(5) f, of "b1 @ a @ b2 @ b @ b3 @ c @ b4 @ d @ b5"]
          blank_head [OF assms(6,7)] by simp
  have 1: "extract_word (b1 @ a @ b2 @ b @ b3 @ c @ b4 @ d @ b5) = (a, b2 @ b @ b3 @ c @ b4 @ d @ b5)"
    using extract_word_token [OF assms(6) assms(1), of "b2 @ b @ b3 @ c @ b4 @ d @ b5"]
          blank_head [OF assms(8,9)] by simp
  have 2: "extract_word (b2 @ b @ b3 @ c @ b4 @ d @ b5) = (b, b3 @ c @ b4 @ d @ b5)"
    using extract_word_token [OF assms(8) assms(2), of "b3 @ c @ b4 @ d @ b5"]
          blank_head [OF assms(10,11)] by simp
  have 3: "extract_word (b3 @ c @ b4 @ d @ b5) = (c, b4 @ d @ b5)"
    using extract_word_token [OF assms(10) assms(3), of "b4 @ d @ b5"]
          blank_head [OF assms(12,13)] by simp
  have 4: "extract_word (b4 @ d @ b5) = (d, b5)"
    using extract_word_token [OF assms(12) assms(4), of b5] blank_rest [OF assms(14)] by simp
  have "d \<noteq> []"
    using assms(4) by (simp add: is_word_def)
  then show "face_vertices (b1 @ a @ b2 @ b @ b3 @ c @ b4 @ d @ b5) = [a, b, c, a, c, d]"
    by (simp add: face_vertices_def 1 2 3 4)
qed

lemma file_corners_append:
  "file_corners (xs @ ys) =
     (case file_corners xs of
        Inl e \<Rightarrow> Inl e
      | Inr cs \<Rightarrow> (case file_corners ys of Inl e \<Rightarrow> Inl e | Inr ds \<Rightarrow> Inr (cs @ ds)))"
  by (induction xs) (simp_all split: sum.splits)

lemma parse_corners_six:
  "parse_corners [a, b, c, a, c, d] = Inr cs \<Longrightarrow>
     \<exists>ca cb cc cd. parse_corner a = Inr ca \<and> parse_corner b = Inr cb \<and> parse_corner c = Inr cc
        \<and> parse_corner d = Inr cd \<and> cs = [ca, cb, cc, ca, cc, cd]"
  by (auto split: sum.splits)

lemma flatten_corner_positions:
  assumes "vertexIndices st = map position_word cs"
  shows "out_vertices (flatten ops st out) = out_vertices out @ corner_positions st cs"
  by (simp add: flatten_out_vertices corner_positions_def assms)

lemma corner_positions_append:
  "corner_positions st (cs @ ds) = corner_positions st cs @ corner_positions st ds"
  by (simp add: corner_positions_def)

text \<open>
  C1. A face record with exactly 4 corner words \<open>a b c d\<close> (the line is \<open>f\<close> and the four
  words, with white space between them and possibly around them) yields the six corner
  strings \<open>a, b, c, a, c, d\<close>, and the line is processed as these six corners in that
  order: two triangles, the second reusing the first and the third corner. In every file
  that holds the line and parses, the four words parse to corners \<open>ca, cb, cc, cd\<close>; the
  index stream holds, between the corners of the lines before and of the lines after, the
  six entries of \<open>ca, cb, cc\<close> and \<open>ca, cc, cd\<close>; and the flattener emits at that place
  the positions of these six corners, in that order: all six when the four position
  indices are in range, and otherwise those that are.
\<close>

theorem quad_face_two_triangles:
  assumes "is_word a" "is_word b" "is_word c" "is_word d"
    and "is_blank b0" "is_blank b1" "b1 \<noteq> []" "is_blank b2" "b2 \<noteq> []"
        "is_blank b3" "b3 \<noteq> []" "is_blank b4" "b4 \<noteq> []" "is_blank b5"
    and "line = b0 @ ''f'' @ b1 @ a @ b2 @ b @ b3 @ c @ b4 @ d @ b5"
  shows "face_vertices (snd (extract_word line)) = [a, b, c, a, c, d]
         \<and> process_line ops st line = process_corners st [a, b, c, a, c, d]
         \<and> (\<forall>before after st'.
               parse_lines ops init_state (before @ line # after) = Inr st' \<longrightarrow>
               (\<exists>ca cb cc cd cs1 cs2.
                   parse_corner a = Inr ca \<and> parse_corner b = Inr cb
                 \<and> parse_corner c = Inr cc \<and> parse_corner d = Inr cd
                 \<and> file_corners before = Inr cs1 \<and> file_corners after = Inr cs2
                 \<and> vertexIndices st' = map position_word cs1
                      @ map position_word [ca, cb, cc, ca, cc, cd] @ map position_word cs2
                 \<and> out_vertices (flatten ops st' empty_buffers) = corner_positions st' cs1
                      @ corner_positions st' [ca, cb, cc, ca, cc, cd] @ corner_positions st' cs2
                 \<and> (in_range (position_word ca) (temp_vertices st')
                      \<and> in_range (position_word cb) (temp_vertices st')
                      \<and> in_range (position_word cc) (temp_vertices st')
                      \<and> in_range (position_word cd) (temp_vertices st')
                    \<longrightarrow> corner_positions st' [ca, cb, cc, ca, cc, cd] =
                          map (\<lambda>c. resolve (temp_vertices st') (position_word c))
                            [ca, cb, cc, ca, cc, cd])))"
proof -
  note w = quad_line_words [OF assms(1-14)]
  have fv: "face_vertices (snd (extract_word line)) = [a, b, c, a, c, d]"
    unfolding assms(15) w(1) snd_conv by (rule w(2))
  have pf: "fst (extract_word line) = ''f''"
    unfolding assms(15) w(1) by simp
  have pl: "process_line ops st line = process_corners st [a, b, c, a, c, d]"
    unfolding process_line_def assms(15) w(1) by (simp add: w(2))
  have lc: "line_corners line = parse_corners [a, b, c, a, c, d]"
    by (simp add: line_corners_alt pf fv)
  have fl: "\<forall>before after st'.
               parse_lines ops init_state (before @ line # after) = Inr st' \<longrightarrow>
               (\<exists>ca cb cc cd cs1 cs2.
                   parse_corner a = Inr ca \<and> parse_corner b = Inr cb
                 \<and> parse_corner c = Inr cc \<and> parse_corner d = Inr cd
                 \<and> file_corners before = Inr cs1 \<and> file_corners after = Inr cs2
                 \<and> vertexIndices st' = map position_word cs1
                      @ map position_word [ca, cb, cc, ca, cc, cd] @ map position_word cs2
                 \<and> out_vertices (flatten ops st' empty_buffers) = corner_positions st' cs1
                      @ corner_positions st' [ca, cb, cc, ca, cc, cd] @ corner_positions st' cs2
                 \<and> (in_range (position_word ca) (temp_vertices st')
                      \<and> in_range (position_word cb) (temp_vertices st')
                      \<and> in_range (position_word cc) (temp_vertices st')
                      \<and> in_range (position_word cd) (temp_vertices st')
                    \<longrightarrow> corner_positions st' [ca, cb, cc, ca, cc, cd] =
                          map (\<lambda>c. resolve (temp_vertices st') (position_word c))
                            [ca, cb, cc, ca, cc, cd]))"
  proof (intro allI impI)
    fix before after st'
    assume p: "parse_lines ops init_state (before @ line # after) = Inr st'"
    from parse_lines_streams [OF p] obtain cs where
      cs: "file_corners (before @ line # after) = Inr cs"
      and vi: "vertexIndices st' = map position_word cs"
      by (auto simp: init_state_def position_word_def)
    from cs obtain cs1 csl cs2 where 1: "file_corners before = Inr cs1"
      and l: "line_corners line = Inr csl" and 2: "file_corners after = Inr cs2"
      and c: "cs = cs1 @ csl @ cs2"
      by (auto simp: file_corners_append split: sum.splits)
    from l lc parse_corners_six [of a b c d csl] obtain ca cb cc cd where
      q: "parse_corner a = Inr ca" "parse_corner b = Inr cb" "parse_corner c = Inr cc"
         "parse_corner d = Inr cd" "csl = [ca, cb, cc, ca, cc, cd]"
      by auto
    have v: "vertexIndices st' = map position_word cs1
               @ map position_word [ca, cb, cc, ca, cc, cd] @ map position_word cs2"
      by (simp add: vi c q(5))
    have o: "out_vertices (flatten ops st' empty_buffers) = corner_positions st' cs1
               @ corner_positions st' [ca, cb, cc, ca, cc, cd] @ corner_positions st' cs2"
    proof -
      have "out_vertices (flatten ops st' empty_buffers) = corner_positions st' cs"
        using flatten_corner_positions [OF vi, of ops empty_buffers]
        by (simp add: empty_buffers_def)
      then show ?thesis
        unfolding c q(5) corner_positions_append .
    qed
    have a: "in_range (position_word ca) (temp_vertices st')
                      \<and> in_range (position_word cb) (temp_vertices st')
                      \<and> in_range (position_word cc) (temp_vertices st')
                      \<and> in_range (position_word cd) (temp_vertices st')
                    \<longrightarrow> corner_positions st' [ca, cb, cc, ca, cc, cd] =
                          map (\<lambda>c. resolve (temp_vertices st') (position_word c))
                            [ca, cb, cc, ca, cc, cd]"
      by (simp add: corner_positions_def)
    from q 1 2 v o a
    show "\<exists>ca cb cc cd cs1 cs2.
                   parse_corner a = Inr ca \<and> parse_corner b = Inr cb
                 \<and> parse_corner c = Inr cc \<and> parse_corner d = Inr cd
                 \<and> file_corners before = Inr cs1 \<and> file_corners after = Inr cs2
                 \<and> vertexIndices st' = map position_word cs1
                      @ map position_word [ca, cb, cc, ca, cc, cd] @ map position_word cs2
                 \<and> out_vertices (flatten ops st' empty_buffers) = corner_positions st' cs1
                      @ corner_positions st' [ca, cb, cc, ca, cc, cd] @ corner_positions st' cs2
                 \<and> (in_range (position_word ca) (temp_vertices st')
                      \<and> in_range (position_word cb) (temp_vertices st')
                      \<and> in_range (position_word cc) (temp_vertices st')
                      \<and> in_range (position_word cd) (temp_vertices st')
                    \<longrightarrow> corner_positions st' [ca, cb, cc, ca, cc, cd] =
                          map (\<lambda>c. resolve (temp_vertices st') (position_word c))
                            [ca, cb, cc, ca, cc, cd])"
      by blast
  qed
  from fv pl fl show ?thesis by blast
qed

section \<open>Texture coordinates\<close>

lemma index_loop:
  assumes "\<And>i. i < length cs \<Longrightarrow> P' i = P (cs ! i)"
    and "\<And>i. i < length cs \<Longrightarrow> P (cs ! i) \<Longrightarrow> f' i = [f (cs ! i)]"
  shows "concat (map f' (filter P' [0..<length cs])) = map f (filter P cs)"
proof -
  have 1: "filter P' [0..<length cs] = filter (\<lambda>i. P (cs ! i)) [0..<length cs]"
    using assms(1) by (intro filter_cong) simp_all
  have 2: "map f' (filter (\<lambda>i. P (cs ! i)) [0..<length cs])
             = map (\<lambda>i. [f (cs ! i)]) (filter (\<lambda>i. P (cs ! i)) [0..<length cs])"
    using assms(2) by (intro map_cong) simp_all
  have 3: "concat (map (\<lambda>i. [f (cs ! i)]) xs) = map (\<lambda>i. f (cs ! i)) xs" for xs
    by (induction xs) simp_all
  show ?thesis
    by (simp only: 1 2 3 filter_nth_upt)
qed

lemma all_textured_stream:
  "\<forall>c \<in> set cs. fst (snd c) \<noteq> None \<Longrightarrow>
     concat (map (\<lambda>c. index_entry (fst (snd c))) cs) = map texture_word cs"
  by (induction cs) (auto simp: index_entry_def texture_word_def)

lemma flatten_out_uvs:
  "out_uvs (flatten ops st out) = out_uvs out
     @ concat (map (uv_emit ops st) (filter (valid_corner st) [0..<length (vertexIndices st)]))"
  by (simp add: flatten_def flatten_steps)

text \<open>
  C6, as the code has it. The default UV is gated on the parsed texture coordinates, not
  on the index stream: when the file has at least one \<^verbatim>\<open>vt\<close> record every output vertex
  receives exactly one UV, and when it has none no vertex receives one. In a file whose
  corners all carry a texture index, the UV of an output vertex is the coordinate that its
  own corner's index resolves to when that index is in range, and (0,0) when it is not.
  In a file with \<^verbatim>\<open>vt\<close> records where no corner carries a texture index, every output
  vertex receives (0,0).
\<close>

theorem uv_for_every_vertex:
  assumes "parse_lines ops init_state lines = Inr st" and "file_corners lines = Inr cs"
  shows "(temp_uvs st \<noteq> [] \<longrightarrow>
            length (out_uvs (flatten ops st empty_buffers))
              = length (out_vertices (flatten ops st empty_buffers)))
         \<and> (temp_uvs st = [] \<longrightarrow> out_uvs (flatten ops st empty_buffers) = [])
         \<and> (temp_uvs st \<noteq> [] \<and> (\<forall>c \<in> set cs. fst (snd c) \<noteq> None) \<longrightarrow>
              out_uvs (flatten ops st empty_buffers) =
                map (\<lambda>c. if in_range (texture_word c) (temp_uvs st)
                          then resolve (temp_uvs st) (texture_word c) else vec2_zero ops)
                  (filter (\<lambda>c. in_range (position_word c) (temp_vertices st)) cs))
         \<and> (temp_uvs st \<noteq> [] \<and> (\<forall>c \<in> set cs. fst (snd c) = None) \<longrightarrow>
              out_uvs (flatten ops st empty_buffers) =
                replicate (length (out_vertices (flatten ops st empty_buffers))) (vec2_zero ops))"
proof (intro conjI impI)
  assume "temp_uvs st \<noteq> []"
  then show "length (out_uvs (flatten ops st empty_buffers))
               = length (out_vertices (flatten ops st empty_buffers))"
    by (simp add: flatten_uvs_length)
next
  assume "temp_uvs st = []"
  then show "out_uvs (flatten ops st empty_buffers) = []"
    using flatten_uvs_length [of ops st] by simp
next
  assume a: "temp_uvs st \<noteq> [] \<and> (\<forall>c \<in> set cs. fst (snd c) \<noteq> None)"
  from parse_lines_streams [OF assms(1)] assms(2)
  have vi: "vertexIndices st = map position_word cs"
    and ui: "uvIndices st = concat (map (\<lambda>c. index_entry (fst (snd c))) cs)"
    by (auto simp: init_state_def position_word_def)
  have ut: "uvIndices st = map texture_word cs"
    using a ui by (simp add: all_textured_stream)
  have n: "length (vertexIndices st) = length cs"
    by (simp add: vi)
  have "concat (map (uv_emit ops st) (filter (valid_corner st) [0..<length cs]))
          = map (\<lambda>c. if in_range (texture_word c) (temp_uvs st)
                      then resolve (temp_uvs st) (texture_word c) else vec2_zero ops)
              (filter (\<lambda>c. in_range (position_word c) (temp_vertices st)) cs)"
  proof (rule index_loop)
    fix i
    assume "i < length cs"
    then show "valid_corner st i = in_range (position_word (cs ! i)) (temp_vertices st)"
      by (simp add: valid_corner_def vi)
  next
    fix i
    assume i: "i < length cs"
    then have "uvIndices st \<noteq> []" "i < length (uvIndices st)"
      "uvIndices st ! i = texture_word (cs ! i)"
      by (auto simp: ut)
    then show "uv_emit ops st i =
                 [if in_range (texture_word (cs ! i)) (temp_uvs st)
                  then resolve (temp_uvs st) (texture_word (cs ! i)) else vec2_zero ops]"
      using a by (simp add: uv_emit_def)
  qed
  then show "out_uvs (flatten ops st empty_buffers) =
                map (\<lambda>c. if in_range (texture_word c) (temp_uvs st)
                          then resolve (temp_uvs st) (texture_word c) else vec2_zero ops)
                  (filter (\<lambda>c. in_range (position_word c) (temp_vertices st)) cs)"
    by (simp add: flatten_out_uvs n empty_buffers_def)
next
  assume a: "temp_uvs st \<noteq> [] \<and> (\<forall>c \<in> set cs. fst (snd c) = None)"
  from parse_lines_streams [OF assms(1)] assms(2)
  have "uvIndices st = concat (map (\<lambda>c. index_entry (fst (snd c))) cs)"
    by (auto simp: init_state_def)
  also have "\<dots> = []"
    using a by (induction cs) (simp_all add: index_entry_def)
  finally have "uv_emit ops st = (\<lambda>i. [vec2_zero ops])"
    using a by (intro ext) (simp add: uv_emit_def)
  then show "out_uvs (flatten ops st empty_buffers) =
               replicate (length (out_vertices (flatten ops st empty_buffers))) (vec2_zero ops)"
    by (simp add: flatten_def flatten_steps empty_buffers_def map_replicate_const)
qed

section \<open>Malformed fields\<close>

lemma parse_corners_error_conv:
  "parse_corners vs = Inl e \<Longrightarrow> \<exists>vertex \<in> set vs. parse_corner vertex = Inl e"
  by (induction vs) (auto split: sum.splits)

lemma file_corners_error_conv:
  "file_corners lines = Inl e \<Longrightarrow> \<exists>line \<in> set lines. line_corners line = Inl e"
  by (induction lines) (auto split: sum.splits)

lemma load_error_conv:
  assumes "loadOBJ ops (Some lines) out = Inl e"
  shows "\<exists>line vertex. line \<in> set lines \<and> fst (extract_word line) = ''f''
           \<and> vertex \<in> set (face_vertices (snd (extract_word line)))
           \<and> process_corner st vertex = Inl e"
proof -
  from assms have "parse_lines ops init_state lines = Inl e"
    by (auto simp: loadOBJ_def split: sum.splits)
  then have "file_corners lines = Inl e"
    by (simp add: parse_lines_error)
  then obtain line where l: "line \<in> set lines" "line_corners line = Inl e"
    using file_corners_error_conv by blast
  then have f: "fst (extract_word line) = ''f''"
    and p: "parse_corners (face_vertices (snd (extract_word line))) = Inl e"
    by (auto simp: line_corners_alt split: if_splits)
  from parse_corners_error_conv [OF p] obtain vertex
    where "vertex \<in> set (face_vertices (snd (extract_word line)))" "parse_corner vertex = Inl e"
    by blast
  with l(1) f show ?thesis
    by (auto simp: process_corner_error)
qed

lemma record_line:
  "fst (extract_word line) = ''v'' \<Longrightarrow>
     process_line ops st line =
       Inr (st\<lparr>temp_vertices := temp_vertices st @ [read_vec3 ops (snd (extract_word line))]\<rparr>)"
  "fst (extract_word line) = ''vt'' \<Longrightarrow>
     process_line ops st line =
       Inr (st\<lparr>temp_uvs := temp_uvs st @ [read_vec2 ops (snd (extract_word line))]\<rparr>)"
  "fst (extract_word line) = ''vn'' \<Longrightarrow>
     process_line ops st line =
       Inr (st\<lparr>temp_normals := temp_normals st @ [read_vec3 ops (snd (extract_word line))]\<rparr>)"
  by (simp_all add: process_line_def case_prod_beta)

lemma record_line_goes_on:
  assumes "process_line ops st line = Inr st'"
  shows "parse_lines ops st (line # rest) = parse_lines ops st' rest"
  using assms by simp

text \<open>
  C7, as the code has it. The load is aborted by an exception exactly when a corner of a
  face record has an index field that \<^verbatim>\<open>std::stoi\<close> cannot convert: the position field, or
  a texture or normal field that is not empty. Such a corner makes \<^verbatim>\<open>loadOBJ\<close> raise,
  wherever the record stands in the file, and nothing recovers. The position, texture and
  normal records never abort the load, whatever their fields hold: a \<^verbatim>\<open>v\<close>, \<^verbatim>\<open>vt\<close> or
  \<^verbatim>\<open>vn\<close> line appends to its vector exactly the record that the stream extraction leaves,
  changes nothing else, and the line loop goes on with the rest of the file from that
  state; a file without a face record always loads.
\<close>

theorem face_index_error_aborts:
  "(line \<in> set lines \<and> fst (extract_word line) = ''f''
      \<and> vertex \<in> set (face_vertices (snd (extract_word line)))
      \<and> process_corner st vertex = Inl e
    \<longrightarrow> (\<exists>e'. loadOBJ ops (Some lines) out = Inl e'))
   \<and> (stoi (takeWhile (\<lambda>c. c \<noteq> CHR ''/'') vertex) = Inl e \<longrightarrow> process_corner st vertex = Inl e)
   \<and> (getline_slash vertex = Some (t1, r1) \<and> stoi t1 = Inr p
        \<and> getline_slash r1 = Some (t2, r2) \<and> t2 \<noteq> [] \<and> stoi t2 = Inl e
      \<longrightarrow> process_corner st vertex = Inl e)
   \<and> (getline_slash vertex = Some (t1, r1) \<and> stoi t1 = Inr p
        \<and> getline_slash r1 = Some (t2, r2) \<and> (t2 = [] \<or> stoi t2 = Inr t)
        \<and> getline_slash r2 = Some (t3, r3) \<and> t3 \<noteq> [] \<and> stoi t3 = Inl e
      \<longrightarrow> process_corner st vertex = Inl e)
   \<and> (loadOBJ ops (Some lines) out = Inl e
      \<longrightarrow> (\<exists>l v. l \<in> set lines \<and> fst (extract_word l) = ''f''
                 \<and> v \<in> set (face_vertices (snd (extract_word l)))
                 \<and> process_corner st v = Inl e))
   \<and> ((\<forall>l \<in> set lines. fst (extract_word l) \<noteq> ''f'')
      \<longrightarrow> (\<exists>out'. loadOBJ ops (Some lines) out = Inr (True, out')))
   \<and> (fst (extract_word line) = ''v''
      \<longrightarrow> process_line ops st line =
            Inr (st\<lparr>temp_vertices :=
                      temp_vertices st @ [read_vec3 ops (snd (extract_word line))]\<rparr>)
          \<and> parse_lines ops st (line # rest) =
            parse_lines ops
              (st\<lparr>temp_vertices :=
                    temp_vertices st @ [read_vec3 ops (snd (extract_word line))]\<rparr>) rest)
   \<and> (fst (extract_word line) = ''vt''
      \<longrightarrow> process_line ops st line =
            Inr (st\<lparr>temp_uvs := temp_uvs st @ [read_vec2 ops (snd (extract_word line))]\<rparr>)
          \<and> parse_lines ops st (line # rest) =
            parse_lines ops
              (st\<lparr>temp_uvs := temp_uvs st @ [read_vec2 ops (snd (extract_word line))]\<rparr>) rest)
   \<and> (fst (extract_word line) = ''vn''
      \<longrightarrow> process_line ops st line =
            Inr (st\<lparr>temp_normals :=
                      temp_normals st @ [read_vec3 ops (snd (extract_word line))]\<rparr>)
          \<and> parse_lines ops st (line # rest) =
            parse_lines ops
              (st\<lparr>temp_normals :=
                    temp_normals st @ [read_vec3 ops (snd (extract_word line))]\<rparr>) rest)"
proof -
  note abort = face_corner_error_aborts [of line lines vertex st e ops out]
    position_field_error [of vertex e st]
    texture_field_error [of vertex t1 r1 p t2 r2 e st]
    normal_field_error [of vertex t1 r1 p t2 r2 t t3 r3 e st]
    load_error_conv [of ops lines out e st]
    no_face_loads [of lines ops out]
  have v: "process_line ops st line =
            Inr (st\<lparr>temp_vertices :=
                      temp_vertices st @ [read_vec3 ops (snd (extract_word line))]\<rparr>)
          \<and> parse_lines ops st (line # rest) =
            parse_lines ops
              (st\<lparr>temp_vertices :=
                    temp_vertices st @ [read_vec3 ops (snd (extract_word line))]\<rparr>) rest"
    if "fst (extract_word line) = ''v''"
    using record_line(1) [OF that, of ops st] by (simp add: record_line_goes_on)
  have vt: "process_line ops st line =
            Inr (st\<lparr>temp_uvs := temp_uvs st @ [read_vec2 ops (snd (extract_word line))]\<rparr>)
          \<and> parse_lines ops st (line # rest) =
            parse_lines ops
              (st\<lparr>temp_uvs := temp_uvs st @ [read_vec2 ops (snd (extract_word line))]\<rparr>) rest"
    if "fst (extract_word line) = ''vt''"
    using record_line(2) [OF that, of ops st] by (simp add: record_line_goes_on)
  have vn: "process_line ops st line =
            Inr (st\<lparr>temp_normals :=
                      temp_normals st @ [read_vec3 ops (snd (extract_word line))]\<rparr>)
          \<and> parse_lines ops st (line # rest) =
            parse_lines ops
              (st\<lparr>temp_normals :=
                    temp_normals st @ [read_vec3 ops (snd (extract_word line))]\<rparr>) rest"
    if "fst (extract_word line) = ''vn''"
    using record_line(3) [OF that, of ops st] by (simp add: record_line_goes_on)
  from abort v vt vn show ?thesis
    by blast
qed

section \<open>The sample meshes\<close>

lemmas lex_defs = extract_word_def isspace_def getline_slash_def stoi_def isdigit_def
  digits_value_def optional_index_def parse_corner_def face_vertices_def line_corners_alt

lemmas read_defs = real_glm_def read_decimals3_def read_decimals2_def read_decimal_def
  isspace_def isdigit_def digits_value_def

lemma face_line:
  "fst (extract_word line) = ''f'' \<Longrightarrow> line_corners line = Inr cs \<Longrightarrow>
     process_line ops st line = Inr (foldl push_corner st cs)"
  "fst (extract_word line) = ''f'' \<Longrightarrow> line_corners line = Inl e \<Longrightarrow>
     process_line ops st line = Inl e"
  by (simp_all add: process_line_eq)

lemma sample_words:
  "extract_word ''v 0 0 0'' = (''v'', '' 0 0 0'')"
  "extract_word ''v 1 0 0'' = (''v'', '' 1 0 0'')"
  "extract_word ''v 0 1 0'' = (''v'', '' 0 1 0'')"
  "extract_word ''v 1 1 0'' = (''v'', '' 1 1 0'')"
  "extract_word ''v 0 0 abc'' = (''v'', '' 0 0 abc'')"
  "extract_word ''vn 0 0 1'' = (''vn'', '' 0 0 1'')"
  "extract_word ''vt 0.5 0.25'' = (''vt'', '' 0.5 0.25'')"
  "extract_word ''f 1 2 3 4'' = (''f'', '' 1 2 3 4'')"
  "extract_word ''f 1 2 3'' = (''f'', '' 1 2 3'')"
  "extract_word ''f 1//1 2//1 3//1'' = (''f'', '' 1//1 2//1 3//1'')"
  "extract_word ''f 1/1 2/1 3/1'' = (''f'', '' 1/1 2/1 3/1'')"
  "extract_word ''f 1/1 2/1 3/7'' = (''f'', '' 1/1 2/1 3/7'')"
  "extract_word ''f 1 x 3'' = (''f'', '' 1 x 3'')"
  "extract_word ''f 0 2 -1'' = (''f'', '' 0 2 -1'')"
  by (simp_all add: extract_word_def isspace_def)

lemma sample_reads:
  "read_vec3 real_glm '' 0 0 0'' = Vec3 0 0 0"
  "read_vec3 real_glm '' 1 0 0'' = Vec3 1 0 0"
  "read_vec3 real_glm '' 0 1 0'' = Vec3 0 1 0"
  "read_vec3 real_glm '' 1 1 0'' = Vec3 1 1 0"
  "read_vec3 real_glm '' 0 0 abc'' = Vec3 0 0 0"
  "read_vec3 real_glm '' 0 0 1'' = Vec3 0 0 1"
  "read_vec2 real_glm '' 0.5 0.25'' = Vec2 (1/2) (1/4)"
  by (simp_all add: read_defs)

lemma sample_corners:
  "parse_corner ''1'' = Inr (1, None, None)"
  "parse_corner ''2'' = Inr (2, None, None)"
  "parse_corner ''3'' = Inr (3, None, None)"
  "parse_corner ''4'' = Inr (4, None, None)"
  "parse_corner ''0'' = Inr (0, None, None)"
  "parse_corner ''-1'' = Inr (-1, None, None)"
  "parse_corner ''x'' = Inl Invalid_argument"
  "parse_corner ''1//1'' = Inr (1, None, Some 1)"
  "parse_corner ''2//1'' = Inr (2, None, Some 1)"
  "parse_corner ''3//1'' = Inr (3, None, Some 1)"
  "parse_corner ''1/1'' = Inr (1, Some 1, None)"
  "parse_corner ''2/1'' = Inr (2, Some 1, None)"
  "parse_corner ''3/1'' = Inr (3, Some 1, None)"
  "parse_corner ''3/7'' = Inr (3, Some 7, None)"
  by (simp_all add: parse_corner_def getline_slash_def stoi_def isspace_def isdigit_def
        digits_value_def optional_index_def)

lemma sample_faces:
  "face_vertices '' 1 2 3 4'' = [''1'', ''2'', ''3'', ''1'', ''3'', ''4'']"
  "face_vertices '' 1 2 3'' = [''1'', ''2'', ''3'']"
  "face_vertices '' 1//1 2//1 3//1'' = [''1//1'', ''2//1'', ''3//1'']"
  "face_vertices '' 1/1 2/1 3/1'' = [''1/1'', ''2/1'', ''3/1'']"
  "face_vertices '' 1/1 2/1 3/7'' = [''1/1'', ''2/1'', ''3/7'']"
  "face_vertices '' 1 x 3'' = [''1'', ''x'', ''3'']"
  "face_vertices '' 0 2 -1'' = [''0'', ''2'', ''-1'']"
  by (simp_all add: face_vertices_def extract_word_def isspace_def)

lemmas sample_lines = process_line_eq line_corners_alt sample_words sample_reads sample_corners
  sample_faces push_corner_def index_entry_def init_state_def

lemma parse_quad_mesh:
  "parse_lines real_glm init_state quad_mesh =
     Inr \<lparr>temp_vertices = [Vec3 0 0 0, Vec3 1 0 0, Vec3 1 1 0, Vec3 0 1 0], temp_uvs = [],
          temp_normals = [], vertexIndices = [1, 2, 3, 1, 3, 4], uvIndices = [],
          normalIndices = []\<rparr>"
  by (simp add: quad_mesh_def sample_lines)

lemma parse_mixed_normals_mesh:
  "parse_lines real_glm init_state mixed_normals_mesh =
     Inr \<lparr>temp_vertices = [Vec3 0 0 0, Vec3 1 0 0, Vec3 0 1 0], temp_uvs = [],
          temp_normals = [Vec3 0 0 1], vertexIndices = [1, 2, 3, 1, 2, 3], uvIndices = [],
          normalIndices = [1, 1, 1]\<rparr>"
  by (simp add: mixed_normals_mesh_def sample_lines)

lemma parse_untextured_mesh:
  "parse_lines real_glm init_state untextured_mesh =
     Inr \<lparr>temp_vertices = [Vec3 0 0 0, Vec3 1 0 0, Vec3 0 1 0], temp_uvs = [],
          temp_normals = [], vertexIndices = [1, 2, 3], uvIndices = [1, 1, 1],
          normalIndices = []\<rparr>"
  by (simp add: untextured_mesh_def sample_lines)

lemma parse_textured_mesh:
  "parse_lines real_glm init_state textured_mesh =
     Inr \<lparr>temp_vertices = [Vec3 0 0 0, Vec3 1 0 0, Vec3 0 1 0], temp_uvs = [Vec2 (1/2) (1/4)],
          temp_normals = [], vertexIndices = [1, 2, 3], uvIndices = [1, 1, 7],
          normalIndices = []\<rparr>"
  by (simp add: textured_mesh_def sample_lines)

lemma parse_malformed_vertex_mesh:
  "parse_lines real_glm init_state malformed_vertex_mesh =
     Inr \<lparr>temp_vertices = [Vec3 0 0 0, Vec3 1 0 0, Vec3 0 1 0], temp_uvs = [],
          temp_normals = [], vertexIndices = [1, 2, 3], uvIndices = [],
          normalIndices = []\<rparr>"
  by (simp add: malformed_vertex_mesh_def sample_lines)

lemma parse_malformed_index_mesh:
  "parse_lines real_glm init_state malformed_index_mesh = Inl Invalid_argument"
  by (simp add: malformed_index_mesh_def sample_lines)

lemma parse_points_mesh:
  "parse_lines real_glm init_state points_mesh =
     Inr \<lparr>temp_vertices = [Vec3 0 0 0], temp_uvs = [],
          temp_normals = [], vertexIndices = [], uvIndices = [],
          normalIndices = []\<rparr>"
  by (simp add: points_mesh_def sample_lines)

lemma parse_dangling_mesh:
  "parse_lines real_glm init_state dangling_mesh =
     Inr \<lparr>temp_vertices = [Vec3 0 0 0], temp_uvs = [],
          temp_normals = [], vertexIndices = [0, 2, -1], uvIndices = [],
          normalIndices = []\<rparr>"
  by (simp add: dangling_mesh_def sample_lines)

lemmas flatten_eval = valid_corner_def in_range_def resolve_def uv_emit_def normal_emit_def
  empty_buffers_def vec2_zero_def upt_rec

lemma loadOBJ_parsed:
  "parse_lines ops init_state lines = Inr st \<Longrightarrow>
     loadOBJ ops (Some lines) out =
       Inr (True,
         \<lparr>out_vertices = out_vertices out
            @ map (\<lambda>i. resolve (temp_vertices st) (vertexIndices st ! i))
                (filter (valid_corner st) [0..<length (vertexIndices st)]),
          out_normals = out_normals out
            @ concat (map (normal_emit st) (filter (valid_corner st) [0..<length (vertexIndices st)])),
          out_uvs = out_uvs out
            @ concat (map (uv_emit ops st) (filter (valid_corner st) [0..<length (vertexIndices st)]))\<rparr>)"
  by (simp add: loadOBJ_def flatten_def flatten_steps)

lemma load_quad_mesh:
  "loadOBJ real_glm (Some quad_mesh) empty_buffers =
     Inr (True, \<lparr>out_vertices = [Vec3 0 0 0, Vec3 1 0 0, Vec3 1 1 0,
                                 Vec3 0 0 0, Vec3 1 1 0, Vec3 0 1 0],
                 out_normals = [], out_uvs = []\<rparr>)"
  using loadOBJ_parsed [OF parse_quad_mesh, of empty_buffers]
  by (simp add: flatten_eval)

lemma load_mixed_normals_mesh:
  "loadOBJ real_glm (Some mixed_normals_mesh) empty_buffers =
     Inr (True, \<lparr>out_vertices = [Vec3 0 0 0, Vec3 1 0 0, Vec3 0 1 0,
                                 Vec3 0 0 0, Vec3 1 0 0, Vec3 0 1 0],
                 out_normals = [Vec3 0 0 1, Vec3 0 0 1, Vec3 0 0 1], out_uvs = []\<rparr>)"
  using loadOBJ_parsed [OF parse_mixed_normals_mesh, of empty_buffers]
  by (simp add: flatten_eval)

lemma load_untextured_mesh:
  "loadOBJ real_glm (Some untextured_mesh) empty_buffers =
     Inr (True, \<lparr>out_vertices = [Vec3 0 0 0, Vec3 1 0 0, Vec3 0 1 0],
                 out_normals = [], out_uvs = []\<rparr>)"
  using loadOBJ_parsed [OF parse_untextured_mesh, of empty_buffers]
  by (simp add: flatten_eval)

lemma load_malformed_vertex_mesh:
  "loadOBJ real_glm (Some malformed_vertex_mesh) empty_buffers =
     Inr (True, \<lparr>out_vertices = [Vec3 0 0 0, Vec3 1 0 0, Vec3 0 1 0],
                 out_normals = [], out_uvs = []\<rparr>)"
  using loadOBJ_parsed [OF parse_malformed_vertex_mesh, of empty_buffers]
  by (simp add: flatten_eval)

theorem flat_array_lengths_witness:
  "\<exists>sc. main_load real_glm (Some quad_mesh) = Inr (Some sc)
        \<and> length (vertices sc) = 6 \<and> length (normals sc) = 6 \<and> length (uvs sc) = 0"
proof -
  obtain sc where sc: "main_load real_glm (Some quad_mesh) = Inr (Some sc)"
    and v: "vertices sc = [Vec3 0 0 0, Vec3 1 0 0, Vec3 1 1 0, Vec3 0 0 0, Vec3 1 1 0, Vec3 0 1 0]"
    and u: "uvs sc = []"
    by (simp add: main_load_def load_quad_mesh Let_def)
  from flat_array_lengths [OF sc] v u show ?thesis
    using sc by auto
qed

theorem quad_face_two_triangles_witness:
  "is_word ''1'' \<and> is_word ''2'' \<and> is_word ''3'' \<and> is_word ''4'' \<and> is_blank [] \<and> is_blank '' ''
   \<and> face_vertices (snd (extract_word ''f 1 2 3 4'')) = [''1'', ''2'', ''3'', ''1'', ''3'', ''4'']
   \<and> process_line real_glm init_state ''f 1 2 3 4''
       = process_corners init_state [''1'', ''2'', ''3'', ''1'', ''3'', ''4'']
   \<and> parse_lines real_glm init_state quad_mesh =
       Inr \<lparr>temp_vertices = [Vec3 0 0 0, Vec3 1 0 0, Vec3 1 1 0, Vec3 0 1 0], temp_uvs = [],
            temp_normals = [], vertexIndices = [1, 2, 3, 1, 3, 4], uvIndices = [],
            normalIndices = []\<rparr>
   \<and> out_vertices (flatten real_glm
         \<lparr>temp_vertices = [Vec3 0 0 0, Vec3 1 0 0, Vec3 1 1 0, Vec3 0 1 0], temp_uvs = [],
          temp_normals = [], vertexIndices = [1, 2, 3, 1, 3, 4], uvIndices = [],
          normalIndices = []\<rparr> empty_buffers)
       = [Vec3 0 0 0, Vec3 1 0 0, Vec3 1 1 0, Vec3 0 0 0, Vec3 1 1 0, Vec3 0 1 0]"
proof -
  let ?S = "\<lparr>temp_vertices = [Vec3 0 0 0, Vec3 1 0 0, Vec3 1 1 0, Vec3 0 1 (0::real)], temp_uvs = [],
            temp_normals = [], vertexIndices = [1, 2, 3, 1, 3, 4], uvIndices = [],
            normalIndices = []\<rparr>"
  have w: "is_word ''1''" "is_word ''2''" "is_word ''3''" "is_word ''4''"
    by (simp_all add: is_word_def isspace_def)
  have b: "is_blank []" "is_blank '' ''" "'' '' \<noteq> []"
    by (simp_all add: is_blank_def isspace_def)
  have l: "''f 1 2 3 4'' = [] @ ''f'' @ '' '' @ ''1'' @ '' '' @ ''2'' @ '' '' @ ''3'' @ '' '' @ ''4'' @ []"
    by simp
  note q = quad_face_two_triangles [OF w b(1) b(2,3) b(2,3) b(2,3) b(2,3) b(1) l,
      of real_glm init_state]
  have p: "parse_lines real_glm init_state
             ([''v 0 0 0'', ''v 1 0 0'', ''v 1 1 0'', ''v 0 1 0''] @ ''f 1 2 3 4'' # []) = Inr ?S"
    using parse_quad_mesh by (simp add: quad_mesh_def)
  from q p obtain ca cb cc cd cs1 cs2 where c:
    "parse_corner ''1'' = Inr ca" "parse_corner ''2'' = Inr cb" "parse_corner ''3'' = Inr cc"
    "parse_corner ''4'' = Inr cd"
    "file_corners [''v 0 0 0'', ''v 1 0 0'', ''v 1 1 0'', ''v 0 1 0''] = Inr cs1"
    "file_corners [] = Inr cs2"
    "out_vertices (flatten real_glm ?S empty_buffers) = corner_positions ?S cs1
       @ corner_positions ?S [ca, cb, cc, ca, cc, cd] @ corner_positions ?S cs2"
    by blast
  have "cs1 = []" "cs2 = []"
    using c(5,6) by (simp_all add: line_corners_alt sample_words)
  moreover have "ca = (1, None, None)" "cb = (2, None, None)" "cc = (3, None, None)"
    "cd = (4, None, None)"
    using c(1-4) by (simp_all add: sample_corners)
  ultimately have "out_vertices (flatten real_glm ?S empty_buffers)
         = [Vec3 0 0 0, Vec3 1 0 0, Vec3 1 1 0, Vec3 0 0 0, Vec3 1 1 0, Vec3 0 1 0]"
    using c(7) by (simp add: corner_positions_def position_word_def in_range_def resolve_def)
  with q w b parse_quad_mesh show ?thesis
    by simp
qed

theorem invalid_position_index_skipped_witness:
  "out_vertices (flatten real_glm
       \<lparr>temp_vertices = [Vec3 0 0 0, Vec3 1 0 0], temp_uvs = [], temp_normals = [],
        vertexIndices = [1, 0, 2, 7], uvIndices = [], normalIndices = []\<rparr> empty_buffers)
     = [Vec3 0 0 0, Vec3 1 0 0]
   \<and> flatten_step real_glm
       \<lparr>temp_vertices = [Vec3 0 0 0, Vec3 1 0 0], temp_uvs = [], temp_normals = [],
        vertexIndices = [1, 0, 2, 7], uvIndices = [], normalIndices = []\<rparr> empty_buffers 1
     = empty_buffers
   \<and> flatten_step real_glm
       \<lparr>temp_vertices = [Vec3 0 0 0, Vec3 1 0 0], temp_uvs = [], temp_normals = [],
        vertexIndices = [1, 0, 2, 7], uvIndices = [], normalIndices = []\<rparr> empty_buffers 3
     = empty_buffers
   \<and> length [Vec3 0 0 0, Vec3 1 0 (0::real)] < unat (word_of_int (- 1) :: 32 word)"
proof -
  let ?S = "\<lparr>temp_vertices = [Vec3 0 0 0, Vec3 1 0 (0::real)], temp_uvs = [], temp_normals = [],
        vertexIndices = [1, 0, 2, 7], uvIndices = [], normalIndices = []\<rparr>"
  note t = invalid_position_index_skipped [of real_glm ?S empty_buffers]
  from t [THEN conjunct1]
  have 1: "out_vertices (flatten real_glm ?S empty_buffers) = [Vec3 0 0 0, Vec3 1 0 0]"
    by (simp add: resolve_def empty_buffers_def)
  note skip = t [THEN conjunct2, THEN conjunct2, THEN conjunct2, THEN conjunct1, rule_format]
  have 2: "flatten_step real_glm ?S empty_buffers 1 = empty_buffers"
    by (rule skip) simp
  have 3: "flatten_step real_glm ?S empty_buffers 3 = empty_buffers"
    by (rule skip) simp
  from t [THEN conjunct2, THEN conjunct2, THEN conjunct2, THEN conjunct2, rule_format, of "- 1"]
  have 4: "length [Vec3 0 0 0, Vec3 1 0 (0::real)] < unat (word_of_int (- 1) :: 32 word)"
    by simp
  from 1 2 3 4 show ?thesis by simp
qed

lemma load_textured_mesh:
  "loadOBJ real_glm (Some textured_mesh) empty_buffers =
     Inr (True, \<lparr>out_vertices = [Vec3 0 0 0, Vec3 1 0 0, Vec3 0 1 0],
                 out_normals = [], out_uvs = [Vec2 (1/2) (1/4), Vec2 (1/2) (1/4), Vec2 0 0]\<rparr>)"
  using loadOBJ_parsed [OF parse_textured_mesh, of empty_buffers]
  by (simp add: flatten_eval real_glm_def)

lemma load_points_mesh:
  "loadOBJ real_glm (Some points_mesh) empty_buffers = Inr (True, empty_buffers)"
  using loadOBJ_parsed [OF parse_points_mesh, of empty_buffers]
  by (simp add: flatten_eval)

text \<open>
  C5. The flattener reads the normal index of the corner at place \<open>i\<close> of the position
  stream from place \<open>i\<close> of the normal index stream, which holds an entry only for the
  corners that declare a normal. In the sample the three corners of the first face declare
  no normal and the three of the second face declare normal 1: the normals are attached at
  places 0, 1, 2 and none at places 3, 4, 5.
\<close>

theorem normal_taken_from_stream_position:
  "file_corners mixed_normals_mesh =
     Inr [(1, None, None), (2, None, None), (3, None, None),
          (1, None, Some 1), (2, None, Some 1), (3, None, Some 1)]
   \<and> parse_lines real_glm init_state mixed_normals_mesh =
     Inr \<lparr>temp_vertices = [Vec3 0 0 0, Vec3 1 0 0, Vec3 0 1 0], temp_uvs = [],
          temp_normals = [Vec3 0 0 1], vertexIndices = [1, 2, 3, 1, 2, 3], uvIndices = [],
          normalIndices = [1, 1, 1]\<rparr>
   \<and> flatten_step real_glm
       \<lparr>temp_vertices = [Vec3 0 0 0, Vec3 1 0 0, Vec3 0 1 0], temp_uvs = [],
        temp_normals = [Vec3 0 0 1], vertexIndices = [1, 2, 3, 1, 2, 3], uvIndices = [],
        normalIndices = [1, 1, 1]\<rparr> empty_buffers 0
     = \<lparr>out_vertices = [Vec3 0 0 0], out_normals = [Vec3 0 0 1], out_uvs = []\<rparr>
   \<and> flatten_step real_glm
       \<lparr>temp_vertices = [Vec3 0 0 0, Vec3 1 0 0, Vec3 0 1 0], temp_uvs = [],
        temp_normals = [Vec3 0 0 1], vertexIndices = [1, 2, 3, 1, 2, 3], uvIndices = [],
        normalIndices = [1, 1, 1]\<rparr> empty_buffers 3
     = \<lparr>out_vertices = [Vec3 0 0 0], out_normals = [], out_uvs = []\<rparr>
   \<and> loadOBJ real_glm (Some mixed_normals_mesh) empty_buffers =
     Inr (True, \<lparr>out_vertices = [Vec3 0 0 0, Vec3 1 0 0, Vec3 0 1 0,
                                 Vec3 0 0 0, Vec3 1 0 0, Vec3 0 1 0],
                 out_normals = [Vec3 0 0 1, Vec3 0 0 1, Vec3 0 0 1], out_uvs = []\<rparr>)"
proof -
  have c: "file_corners mixed_normals_mesh =
     Inr [(1, None, None), (2, None, None), (3, None, None),
          (1, None, Some 1), (2, None, Some 1), (3, None, Some 1)]"
    by (simp add: mixed_normals_mesh_def line_corners_alt sample_words sample_faces sample_corners)
  have s: "flatten_step real_glm
       \<lparr>temp_vertices = [Vec3 0 0 0, Vec3 1 0 0, Vec3 0 1 0], temp_uvs = [],
        temp_normals = [Vec3 0 0 1], vertexIndices = [1, 2, 3, 1, 2, 3], uvIndices = [],
        normalIndices = [1, 1, 1]\<rparr> empty_buffers 0
     = \<lparr>out_vertices = [Vec3 0 0 0], out_normals = [Vec3 0 0 1], out_uvs = []\<rparr>"
    "flatten_step real_glm
       \<lparr>temp_vertices = [Vec3 0 0 0, Vec3 1 0 0, Vec3 0 1 0], temp_uvs = [],
        temp_normals = [Vec3 0 0 1], vertexIndices = [1, 2, 3, 1, 2, 3], uvIndices = [],
        normalIndices = [1, 1, 1]\<rparr> empty_buffers 3
     = \<lparr>out_vertices = [Vec3 0 0 0], out_normals = [], out_uvs = []\<rparr>"
    by (simp_all add: flatten_step_eq flatten_eval)
  from c s parse_mixed_normals_mesh load_mixed_normals_mesh show ?thesis
    by simp
qed

text \<open>
  C6, as the specification states it, fails: the corners of the sample carry texture
  indices, so that the UV index stream is not empty, but the file has no \<^verbatim>\<open>vt\<close> record
  and the three output vertices receive no UV at all.
\<close>

theorem uv_index_without_coordinates_counterexample:
  "parse_lines real_glm init_state untextured_mesh =
     Inr \<lparr>temp_vertices = [Vec3 0 0 0, Vec3 1 0 0, Vec3 0 1 0], temp_uvs = [],
          temp_normals = [], vertexIndices = [1, 2, 3], uvIndices = [1, 1, 1],
          normalIndices = []\<rparr>
   \<and> loadOBJ real_glm (Some untextured_mesh) empty_buffers =
     Inr (True, \<lparr>out_vertices = [Vec3 0 0 0, Vec3 1 0 0, Vec3 0 1 0],
                 out_normals = [], out_uvs = []\<rparr>)"
  using parse_untextured_mesh load_untextured_mesh by simp

theorem uv_for_every_vertex_witness:
  "parse_lines real_glm init_state textured_mesh =
     Inr \<lparr>temp_vertices = [Vec3 0 0 0, Vec3 1 0 0, Vec3 0 1 0], temp_uvs = [Vec2 (1/2) (1/4)],
          temp_normals = [], vertexIndices = [1, 2, 3], uvIndices = [1, 1, 7],
          normalIndices = []\<rparr>
   \<and> file_corners textured_mesh = Inr [(1, Some 1, None), (2, Some 1, None), (3, Some 7, None)]
   \<and> out_uvs (flatten real_glm
        \<lparr>temp_vertices = [Vec3 0 0 0, Vec3 1 0 0, Vec3 0 1 0], temp_uvs = [Vec2 (1/2) (1/4)],
         temp_normals = [], vertexIndices = [1, 2, 3], uvIndices = [1, 1, 7],
         normalIndices = []\<rparr> empty_buffers)
     = [Vec2 (1/2) (1/4), Vec2 (1/2) (1/4), Vec2 0 0]"
proof -
  have c: "file_corners textured_mesh = Inr [(1, Some 1, None), (2, Some 1, None), (3, Some 7, None)]"
    by (simp add: textured_mesh_def line_corners_alt sample_words sample_faces sample_corners)
  from uv_for_every_vertex [OF parse_textured_mesh c, THEN conjunct2, THEN conjunct2]
  have "out_uvs (flatten real_glm
        \<lparr>temp_vertices = [Vec3 0 0 0, Vec3 1 0 0, Vec3 0 1 0], temp_uvs = [Vec2 (1/2) (1/4)],
         temp_normals = [], vertexIndices = [1, 2, 3], uvIndices = [1, 1, 7],
         normalIndices = []\<rparr> empty_buffers)
     = [Vec2 (1/2) (1/4), Vec2 (1/2) (1/4), Vec2 0 0]"
    by (simp add: texture_word_def position_word_def in_range_def resolve_def vec2_zero_def
          real_glm_def)
  with parse_textured_mesh c show ?thesis
    by simp
qed

text \<open>
  C7, as the specification states it, fails for a position record: the first record of
  the sample has a field that is not a number, and the file loads, with three positions.
\<close>

theorem malformed_position_record_counterexample:
  "loadOBJ real_glm (Some malformed_vertex_mesh) empty_buffers =
     Inr (True, \<lparr>out_vertices = [Vec3 0 0 0, Vec3 1 0 0, Vec3 0 1 0],
                 out_normals = [], out_uvs = []\<rparr>)"
  by (rule load_malformed_vertex_mesh)

theorem face_index_error_aborts_witness:
  "stoi (takeWhile (\<lambda>c. c \<noteq> CHR ''/'') ''x'') = Inl Invalid_argument
   \<and> process_corner (init_state :: real parse_state) ''x'' = Inl Invalid_argument
   \<and> ''f 1 x 3'' \<in> set malformed_index_mesh
   \<and> fst (extract_word ''f 1 x 3'') = ''f''
   \<and> ''x'' \<in> set (face_vertices (snd (extract_word ''f 1 x 3'')))
   \<and> loadOBJ real_glm (Some malformed_index_mesh) empty_buffers = Inl Invalid_argument
   \<and> (\<exists>l v. l \<in> set malformed_index_mesh \<and> fst (extract_word l) = ''f''
          \<and> v \<in> set (face_vertices (snd (extract_word l)))
          \<and> process_corner (init_state :: real parse_state) v = Inl Invalid_argument)
   \<and> getline_slash ''1/x'' = Some (''1'', ''x'') \<and> stoi ''1'' = Inr 1
   \<and> getline_slash ''x'' = Some (''x'', []) \<and> stoi ''x'' = Inl Invalid_argument
   \<and> process_corner (init_state :: real parse_state) ''1/x'' = Inl Invalid_argument
   \<and> getline_slash ''1//x'' = Some (''1'', ''/x'') \<and> getline_slash ''/x'' = Some ([], ''x'')
   \<and> process_corner (init_state :: real parse_state) ''1//x'' = Inl Invalid_argument
   \<and> fst (extract_word ''v 0 0 0'') \<noteq> ''f''
   \<and> (\<exists>out'. loadOBJ real_glm (Some points_mesh) empty_buffers = Inr (True, out'))
   \<and> fst (extract_word ''v 0 0 abc'') = ''v''
   \<and> process_line real_glm init_state ''v 0 0 abc'' =
       Inr \<lparr>temp_vertices = [Vec3 0 0 0], temp_uvs = [], temp_normals = [],
            vertexIndices = [], uvIndices = [], normalIndices = []\<rparr>
   \<and> parse_lines real_glm init_state malformed_vertex_mesh =
       parse_lines real_glm
         \<lparr>temp_vertices = [Vec3 0 0 0], temp_uvs = [], temp_normals = [],
          vertexIndices = [], uvIndices = [], normalIndices = []\<rparr>
         [''v 1 0 0'', ''v 0 1 0'', ''f 1 2 3'']
   \<and> fst (extract_word ''vt 0.5 abc'') = ''vt''
   \<and> process_line real_glm init_state ''vt 0.5 abc'' =
       Inr \<lparr>temp_vertices = [], temp_uvs = [Vec2 (1/2) 0], temp_normals = [],
            vertexIndices = [], uvIndices = [], normalIndices = []\<rparr>
   \<and> fst (extract_word ''vn abc 0 1'') = ''vn''
   \<and> process_line real_glm init_state ''vn abc 0 1'' =
       Inr \<lparr>temp_vertices = [], temp_uvs = [], temp_normals = [Vec3 0 0 0],
            vertexIndices = [], uvIndices = [], normalIndices = []\<rparr>"
proof -
  note t = face_index_error_aborts [of "''f 1 x 3''" malformed_index_mesh "''x''"
      "init_state :: real parse_state" Invalid_argument real_glm empty_buffers]
  have s: "stoi (takeWhile (\<lambda>c. c \<noteq> CHR ''/'') ''x'') = Inl Invalid_argument"
    by (simp add: stoi_def isspace_def isdigit_def)
  from t [THEN conjunct2, THEN conjunct1, rule_format, OF s]
  have p: "process_corner (init_state :: real parse_state) ''x'' = Inl Invalid_argument" .
  have m: "''f 1 x 3'' \<in> set malformed_index_mesh" "fst (extract_word ''f 1 x 3'') = ''f''"
    "''x'' \<in> set (face_vertices (snd (extract_word ''f 1 x 3'')))"
    by (simp_all add: malformed_index_mesh_def sample_words sample_faces)
  from t [THEN conjunct1, rule_format] m p
  have "\<exists>e'. loadOBJ real_glm (Some malformed_index_mesh) empty_buffers = Inl e'"
    by blast
  then have l: "loadOBJ real_glm (Some malformed_index_mesh) empty_buffers = Inl Invalid_argument"
    using parse_malformed_index_mesh by (auto simp: loadOBJ_def)
  from t [THEN conjunct2, THEN conjunct2, THEN conjunct2, THEN conjunct2, THEN conjunct1,
      rule_format, OF l]
  have c: "\<exists>l v. l \<in> set malformed_index_mesh \<and> fst (extract_word l) = ''f''
          \<and> v \<in> set (face_vertices (snd (extract_word l)))
          \<and> process_corner (init_state :: real parse_state) v = Inl Invalid_argument" .
  have g: "getline_slash ''1/x'' = Some (''1'', ''x'')" "stoi ''1'' = Inr 1"
    "getline_slash ''x'' = Some (''x'', [])" "stoi ''x'' = Inl Invalid_argument"
    "getline_slash ''1//x'' = Some (''1'', ''/x'')" "getline_slash ''/x'' = Some ([], ''x'')"
    by (simp_all add: getline_slash_def stoi_def isspace_def isdigit_def digits_value_def)
  from face_index_error_aborts [where vertex = "''1/x''" and ?t1.0 = "''1''" and ?r1.0 = "''x''"
      and p = 1 and ?t2.0 = "''x''" and ?r2.0 = "[]" and e = Invalid_argument
      and st = "init_state :: real parse_state",
      THEN conjunct2, THEN conjunct2, THEN conjunct1, rule_format] g
  have tx: "process_corner (init_state :: real parse_state) ''1/x'' = Inl Invalid_argument"
    by simp
  from face_index_error_aborts [where vertex = "''1//x''" and ?t1.0 = "''1''" and ?r1.0 = "''/x''"
      and p = 1 and ?t2.0 = "[]" and ?r2.0 = "''x''" and ?t3.0 = "''x''" and ?r3.0 = "[]"
      and e = Invalid_argument and st = "init_state :: real parse_state",
      THEN conjunct2, THEN conjunct2, THEN conjunct2, THEN conjunct1, rule_format] g
  have nx: "process_corner (init_state :: real parse_state) ''1//x'' = Inl Invalid_argument"
    by simp
  have w: "fst (extract_word ''v 0 0 0'') \<noteq> ''f''"
    by (simp add: sample_words)
  then have "\<forall>l \<in> set points_mesh. fst (extract_word l) \<noteq> ''f''"
    by (simp add: points_mesh_def)
  with face_index_error_aborts [where lines = points_mesh and ops = real_glm
      and out = "empty_buffers :: real buffers",
      THEN conjunct2, THEN conjunct2, THEN conjunct2, THEN conjunct2, THEN conjunct2,
      THEN conjunct1]
  have nf: "\<exists>out'. loadOBJ real_glm (Some points_mesh) empty_buffers = Inr (True, out')"
    by blast
  have v: "fst (extract_word ''v 0 0 abc'') = ''v''"
    by (simp add: sample_words)
  note u = face_index_error_aborts [where line = "''v 0 0 abc''" and ops = real_glm
      and st = "init_state :: real parse_state"
      and rest = "[''v 1 0 0'', ''v 0 1 0'', ''f 1 2 3'']"]
  from u [THEN conjunct2, THEN conjunct2, THEN conjunct2, THEN conjunct2, THEN conjunct2,
      THEN conjunct2, THEN conjunct1, rule_format, OF v]
  have r: "process_line real_glm init_state ''v 0 0 abc'' =
       Inr \<lparr>temp_vertices = [Vec3 0 0 0], temp_uvs = [], temp_normals = [],
            vertexIndices = [], uvIndices = [], normalIndices = []\<rparr>"
    "parse_lines real_glm init_state malformed_vertex_mesh =
       parse_lines real_glm
         \<lparr>temp_vertices = [Vec3 0 0 0], temp_uvs = [], temp_normals = [],
          vertexIndices = [], uvIndices = [], normalIndices = []\<rparr>
         [''v 1 0 0'', ''v 0 1 0'', ''f 1 2 3'']"
    by (simp_all add: sample_words sample_reads init_state_def malformed_vertex_mesh_def)
  have vt: "extract_word ''vt 0.5 abc'' = (''vt'', '' 0.5 abc'')"
    and vn: "extract_word ''vn abc 0 1'' = (''vn'', '' abc 0 1'')"
    by (simp_all add: extract_word_def isspace_def)
  have rd: "read_vec2 real_glm '' 0.5 abc'' = Vec2 (1/2) 0"
    "read_vec3 real_glm '' abc 0 1'' = Vec3 0 0 0"
    by (simp_all add: read_defs)
  from face_index_error_aborts [where line = "''vt 0.5 abc''" and ops = real_glm
      and st = "init_state :: real parse_state",
      THEN conjunct2, THEN conjunct2, THEN conjunct2, THEN conjunct2, THEN conjunct2,
      THEN conjunct2, THEN conjunct2, THEN conjunct1, rule_format, THEN conjunct1]
  have rt: "process_line real_glm init_state ''vt 0.5 abc'' =
       Inr \<lparr>temp_vertices = [], temp_uvs = [Vec2 (1/2) 0], temp_normals = [],
            vertexIndices = [], uvIndices = [], normalIndices = []\<rparr>"
    by (simp add: vt rd init_state_def)
  from face_index_error_aborts [where line = "''vn abc 0 1''" and ops = real_glm
      and st = "init_state :: real parse_state",
      THEN conjunct2, THEN conjunct2, THEN conjunct2, THEN conjunct2, THEN conjunct2,
      THEN conjunct2, THEN conjunct2, THEN conjunct2, rule_format, THEN conjunct1]
  have rn: "process_line real_glm init_state ''vn abc 0 1'' =
       Inr \<lparr>temp_vertices = [], temp_uvs = [], temp_normals = [Vec3 0 0 0],
            vertexIndices = [], uvIndices = [], normalIndices = []\<rparr>"
    by (simp add: vn rd init_state_def)
  from s p m l c g tx nx w nf v r vt vn rt rn show ?thesis
    by simp
qed

theorem empty_mesh_divides_by_zero_witness:
  "fst (extract_word ''v 0 0 0'') \<noteq> ''f''
   \<and> loadOBJ real_glm (Some points_mesh) empty_buffers = Inr (True, empty_buffers)
   \<and> parse_lines real_glm init_state dangling_mesh =
       Inr \<lparr>temp_vertices = [Vec3 0 0 0], temp_uvs = [], temp_normals = [],
            vertexIndices = [0, 2, -1], uvIndices = [], normalIndices = []\<rparr>
   \<and> loadOBJ real_glm (Some dangling_mesh) empty_buffers = Inr (True, empty_buffers)
   \<and> main_load real_glm (Some dangling_mesh) =
       Inr (Some \<lparr>vertices = [], normals = [], uvs = [],
                  center = vdiv_size real_glm (vec3_zero real_glm) 0\<rparr>)"
proof -
  note t = empty_mesh_divides_by_zero [of _ real_glm]
  have w: "fst (extract_word ''v 0 0 0'') \<noteq> ''f''"
    by (simp add: sample_words)
  then have "\<forall>l \<in> set points_mesh. fst (extract_word l) \<noteq> ''f''"
    by (simp add: points_mesh_def)
  with t [of points_mesh, THEN conjunct1]
  have 1: "loadOBJ real_glm (Some points_mesh) empty_buffers = Inr (True, empty_buffers)"
    by blast
  have u: "unat (- 1 :: 32 word) = 4294967295"
    by (simp add: unsigned_minus_1_eq_mask mask_eq_exp_minus_1)
  from t [of dangling_mesh, THEN conjunct2, THEN conjunct1, rule_format, OF conjI [OF parse_dangling_mesh]]
  have 2: "loadOBJ real_glm (Some dangling_mesh) empty_buffers = Inr (True, empty_buffers)"
    by (simp add: u)
  from t [of dangling_mesh, THEN conjunct2, THEN conjunct2, rule_format, of True empty_buffers] 2
  have 3: "main_load real_glm (Some dangling_mesh) =
       Inr (Some \<lparr>vertices = [], normals = [], uvs = [],
                  center = vdiv_size real_glm (vec3_zero real_glm) 0\<rparr>)"
    by (simp add: empty_buffers_def)
  from w 1 parse_dangling_mesh 2 3 show ?thesis
    by simp
qed

end
